theory Spec2Isabelle
  imports Main "HOL-Library.Sublist"
begin

section \<open>Values shared by the client and the ingestion function\<close>

text \<open>
  A browser \<open>File\<close> as both programs read it: its name, its size in bytes and its
  declared MIME type. The bytes themselves are never inspected by the code. Strings are
  lists of 8-bit characters here; the code looks at a name one code unit at a time and
  only asks whether the unit is one of a set of ASCII characters.
\<close>

record File =
  file_name :: string
  file_size :: nat
  file_type :: string

text \<open>
  A value that a JavaScript \<open>throw\<close> carries: an \<open>Error\<close> instance with its message,
  or anything else. Both catch blocks test \<open>error instanceof Error\<close>.
\<close>

datatype thrown = ErrorObj string | NonError

text \<open>
  Rendering of a non-negative whole number by a template literal
  (\<open>`${timestamp}`\<close>, \<open>`${maxFileSize}`\<close>): its decimal digits.
\<close>

definition digit_char :: "nat \<Rightarrow> char" where
  "digit_char d = ''0123456789'' ! (d mod 10)"

function show_nat :: "nat \<Rightarrow> string" where
  "show_nat n = (if n < 10 then [digit_char n] else show_nat (n div 10) @ [digit_char (n mod 10)])"
  by pat_completeness auto
termination
  by (relation "measure (\<lambda>n. n)") auto

declare show_nat.simps [simp del]

definition is_digit :: "char \<Rightarrow> bool" where
  "is_digit c = (c \<in> set ''0123456789'')"

definition is_base36 :: "char \<Rightarrow> bool" where
  "is_base36 c = (c \<in> set ''0123456789abcdefghijklmnopqrstuvwxyz'')"

section \<open>The ingestion function (supabase/functions/upload/index.ts)\<close>

subsection \<open>Storage names\<close>

text \<open>The character class \<open>[a-zA-Z0-9._-]\<close> of the \<open>replace\<close> call.\<close>

definition is_safe :: "char \<Rightarrow> bool" where
  "is_safe c =
     (c \<in> set ''abcdefghijklmnopqrstuvwxyz'' \<or> c \<in> set ''ABCDEFGHIJKLMNOPQRSTUVWXYZ''
      \<or> c \<in> set ''0123456789'' \<or> c \<in> set ''._-'')"

text \<open>\<open>file.name.replace(/[^a-zA-Z0-9._-]/g, '_')\<close>\<close>

definition sanitizedName :: "string \<Rightarrow> string" where
  "sanitizedName nm = map (\<lambda>c. if is_safe c then c else CHR ''_'') nm"

text \<open>
  \<open>Math.random().toString(36).substring(2, 8)\<close>. The argument is the text that
  \<open>Math.random().toString(36)\<close> produced: \<open>0\<close> for the number zero, otherwise \<open>0.\<close>
  followed by the base-36 digits the engine prints for the fraction. \<open>substring(2, 8)\<close>
  keeps the characters at positions 2 to 7 that exist.
\<close>

definition randomStr :: "string \<Rightarrow> string" where
  "randomStr r = take 6 (drop 2 r)"

definition random_text :: "string \<Rightarrow> bool" where
  "random_text r =
     (r = ''0'' \<or> (take 2 r = ''0.'' \<and> drop 2 r \<noteq> [] \<and> list_all is_base36 (drop 2 r)))"

text \<open>\<open>`${timestamp}-${randomStr}-${sanitizedName}`\<close>\<close>

definition uniqueFileName :: "nat \<Rightarrow> string \<Rightarrow> string \<Rightarrow> string" where
  "uniqueFileName timestamp r nm =
     show_nat timestamp @ ''-'' @ randomStr r @ ''-'' @ sanitizedName nm"

text \<open>
  The pattern the specification gives for storage names,
  \<open>^\d+-[0-9a-z]{6}-[A-Za-z0-9._-]+$\<close>, read left to right: the leading run of digits
  (not empty), a hyphen, exactly six characters of \<open>[0-9a-z]\<close>, a hyphen, and a
  non-empty rest within the class. Since a hyphen is no digit, \<open>\d+\<close> can only end
  where the run of digits ends.
\<close>

definition storage_pattern :: "string \<Rightarrow> bool" where
  "storage_pattern s =
     (let ds = takeWhile is_digit s; r1 = dropWhile is_digit s in
      ds \<noteq> [] \<and>
      (case r1 of
         [] \<Rightarrow> False
       | c # r2 \<Rightarrow>
           c = CHR ''-'' \<and> length (take 6 r2) = 6 \<and> list_all is_base36 (take 6 r2) \<and>
           (case drop 6 r2 of
              [] \<Rightarrow> False
            | d # r3 \<Rightarrow> d = CHR ''-'' \<and> r3 \<noteq> [] \<and> list_all is_safe r3)))"

subsection \<open>The object store\<close>

type_synonym stored_object = "File \<times> string"

record bucket =
  objects :: "string \<rightharpoonup> stored_object"
  fault :: "string option"

text \<open>
  Modelled from the spec: the object store is an external service, not code of this
  repository. Its contract is section 6's
  \<open>put(name, bytes, contentType, overwrite=false) -> {path} | error\<close> with the
  "reject on name collision" behaviour of section 5: a write to a name that is taken is
  refused unless \<open>upsert\<close> is set. \<open>fault\<close> stands for every other reason the store has
  to refuse a write (quota, policy, transport); it carries the message reported.
  The result is \<open>Inl\<close> the error message or \<open>Inr\<close> the path of the stored object.
\<close>

definition storage_upload ::
  "bucket \<Rightarrow> string \<Rightarrow> File \<Rightarrow> string \<Rightarrow> bool \<Rightarrow> (string + string) \<times> bucket" where
  "storage_upload b path f contentType upsert =
     (case fault b of
        Some msg \<Rightarrow> (Inl msg, b)
      | None \<Rightarrow>
          (case objects b path of
             None \<Rightarrow> (Inr path, b\<lparr>objects := (objects b)(path \<mapsto> (f, contentType))\<rparr>)
           | Some old \<Rightarrow>
               if upsert then (Inr path, b\<lparr>objects := (objects b)(path \<mapsto> (f, contentType))\<rparr>)
               else (Inl ''The resource already exists'', b)))"

subsection \<open>Requests, responses and the handler\<close>

text \<open>
  A request: its method and what \<open>await req.formData()\<close> gives, either the exception it
  rejects with (a body that is not multipart form data) or the fields. A field of form
  data is a file or a text. The handler reads one field, \<open>formData.get('file') as File\<close>:
  the first entry of that name, or null. The cast is for the type checker only, so at
  run time \<open>file\<close> may be a string.
\<close>

datatype form_entry = FileEntry File | TextEntry string

record request =
  req_method :: string
  req_formData :: "thrown + (string \<times> form_entry) list"

definition formData_get :: "(string \<times> form_entry) list \<Rightarrow> string \<Rightarrow> form_entry option" where
  "formData_get fd k = map_of fd k"

text \<open>
  The message of the \<open>TypeError\<close> that \<open>file.name.replace\<close> throws when \<open>file\<close> is a
  string, whose \<open>name\<close> is \<open>undefined\<close>:
  \<open>Cannot read properties of undefined (reading 'replace')\<close>.
\<close>

definition replace_of_undefined :: string where
  "replace_of_undefined =
     ''Cannot read properties of undefined (reading '' @ [CHR 0x27] @ ''replace''
       @ [CHR 0x27] @ '')''"

text \<open>
  What the handler takes from its runtime: whether \<open>createClient\<close> throws (it does when
  the two environment variables are not set), \<open>Date.now()\<close> (milliseconds since 1970, a
  whole number that is not negative), the text of \<open>Math.random().toString(36)\<close>, and the
  store's \<open>getPublicUrl\<close>.
\<close>

record runtime =
  createClient_throws :: "thrown option"
  date_now :: nat
  random_toString36 :: string
  getPublicUrl :: "string \<Rightarrow> string"

record file_info =
  info_name :: string
  info_size :: nat
  info_type :: string
  info_path :: string
  info_url :: string

datatype body =
    NoBody
  | ErrorJson string
  | SuccessJson bool string file_info

record response =
  http_status :: nat
  http_headers :: "(string \<times> string) list"
  http_body :: body

definition corsHeaders :: "(string \<times> string) list" where
  "corsHeaders =
     [(''Access-Control-Allow-Origin'', ''*''),
      (''Access-Control-Allow-Headers'', ''authorization, x-client-info, apikey, content-type'')]"

definition json_response :: "nat \<Rightarrow> body \<Rightarrow> response" where
  "json_response code b =
     \<lparr>http_status = code,
      http_headers = corsHeaders @ [(''Content-Type'', ''application/json'')],
      http_body = b\<rparr>"

definition maxSize :: nat where
  "maxSize = 10 * 1024 * 1024"

text \<open>The outer \<open>catch\<close>: status 500 with the error's message, or a fixed text.\<close>

definition unexpected :: "thrown \<Rightarrow> response" where
  "unexpected e =
     json_response 500
       (ErrorJson (case e of ErrorObj m \<Rightarrow> m | NonError \<Rightarrow> ''An unexpected error occurred''))"

text \<open>
  The function passed to \<open>serve\<close>. It returns the response and the store as the request
  leaves it. \<open>new Response(null, {headers})\<close> has the default status 200. When the
  \<open>file\<close> field is a text: the empty string is falsy, so \<open>!file\<close> holds and the answer
  is the one for a missing field; for any other string \<open>file.size\<close> is \<open>undefined\<close>, the
  comparison \<open>undefined > maxSize\<close> is false, and \<open>file.name.replace\<close> throws into the
  outer \<open>catch\<close>.
\<close>

definition serve :: "runtime \<Rightarrow> bucket \<Rightarrow> request \<Rightarrow> response \<times> bucket" where
  "serve rt b req =
     (if req_method req = ''OPTIONS'' then
        (\<lparr>http_status = 200, http_headers = corsHeaders, http_body = NoBody\<rparr>, b)
      else
        (case createClient_throws rt of
           Some e \<Rightarrow> (unexpected e, b)
         | None \<Rightarrow>
             (case req_formData req of
                Inl e \<Rightarrow> (unexpected e, b)
              | Inr fd \<Rightarrow>
                  (case formData_get fd ''file'' of
                     None \<Rightarrow> (json_response 400 (ErrorJson ''No file provided''), b)
                   | Some (TextEntry s) \<Rightarrow>
                       if s = [] then (json_response 400 (ErrorJson ''No file provided''), b)
                       else (unexpected (ErrorObj replace_of_undefined), b)
                   | Some (FileEntry file) \<Rightarrow>
                       if file_size file > maxSize then
                         (json_response 400 (ErrorJson ''File exceeds 10MB limit''), b)
                       else
                         (let uniqueName =
                                uniqueFileName (date_now rt) (random_toString36 rt) (file_name file)
                          in case storage_upload b uniqueName file (file_type file) False of
                               (Inl msg, b') \<Rightarrow>
                                 (json_response 500 (ErrorJson (''Upload failed: '' @ msg)), b')
                             | (Inr path, b') \<Rightarrow>
                                 (json_response 200
                                    (SuccessJson True ''File uploaded successfully''
                                       \<lparr>info_name = file_name file,
                                        info_size = file_size file,
                                        info_type = file_type file,
                                        info_path = path,
                                        info_url = getPublicUrl rt uniqueName\<rparr>), b'))))))"

section \<open>The upload queue (src/components/FileUploader.tsx)\<close>

subsection \<open>Tasks, properties and validation\<close>

datatype status = Pending | Uploading | Success | Error

record UploadedFile =
  task_id :: string
  task_file :: File
  status :: status
  progress :: nat
  errorMessage :: "string option"

text \<open>
  The component's properties. \<open>maxFileSize\<close> is in whole megabytes, as every caller in
  the repository passes it. \<open>onUploadComplete\<close> says whether the optional callback was
  given; its calls are recorded in the state below.
\<close>

record props =
  endpoint :: string
  maxFileSize :: nat
  acceptedTypes :: "string list"
  onUploadComplete :: bool

text \<open>The defaults in the parameter list of \<open>FileUploader\<close>.\<close>

definition default_props :: props where
  "default_props =
     \<lparr>endpoint = ''/api/upload'', maxFileSize = 10, acceptedTypes = [''*''],
      onUploadComplete = False\<rparr>"

text \<open>
  \<open>file.type.match(type)\<close> with a string argument compiles the string with
  \<open>new RegExp\<close> and searches the subject for it. The regular-expression engine belongs
  to the JavaScript runtime, so it is a parameter of the model: given the pattern and the
  subject it either throws (a pattern that does not compile is a \<open>SyntaxError\<close>) or
  says whether \<open>match\<close> returned a match.
\<close>

type_synonym regex_engine = "string \<Rightarrow> string \<Rightarrow> thrown + bool"

text \<open>\<open>acceptedTypes.some(type => file.type.match(type))\<close>: left to right, stopping at
  the first match.\<close>

fun some_match :: "regex_engine \<Rightarrow> string list \<Rightarrow> string \<Rightarrow> thrown + bool" where
  "some_match rx [] subject = Inr False"
| "some_match rx (p # ps) subject =
     (case rx p subject of
        Inl e \<Rightarrow> Inl e
      | Inr True \<Rightarrow> Inr True
      | Inr False \<Rightarrow> some_match rx ps subject)"

text \<open>\<open>acceptedTypes[0] !== '*'\<close>; on an empty array the element is \<open>undefined\<close>.\<close>

definition first_is_star :: "string list \<Rightarrow> bool" where
  "first_is_star ts = (case ts of [] \<Rightarrow> False | t # _ \<Rightarrow> t = ''*'')"

text \<open>\<open>validateFile\<close>: \<open>Inr None\<close> is the source's \<open>null\<close> (the file is accepted),
  \<open>Inr (Some msg)\<close> the message of the rule that failed, \<open>Inl\<close> an exception.\<close>

definition validateFile :: "regex_engine \<Rightarrow> props \<Rightarrow> File \<Rightarrow> thrown + string option" where
  "validateFile rx cfg f =
     (if file_size f > maxFileSize cfg * 1024 * 1024 then
        Inr (Some (''File exceeds '' @ show_nat (maxFileSize cfg) @ ''MB limit''))
      else if \<not> first_is_star (acceptedTypes cfg) then
        (case some_match rx (acceptedTypes cfg) (file_type f) of
           Inl e \<Rightarrow> Inl e
         | Inr True \<Rightarrow> Inr None
         | Inr False \<Rightarrow> Inr (Some ''File type not accepted''))
      else Inr None)"

subsection \<open>The component's state\<close>

record toast =
  title :: string
  description :: string
  destructive :: bool

text \<open>
  The state the component owns (\<open>files\<close>, \<open>isUploading\<close>) together with what it does to
  its surroundings: the \<open>fetch\<close> calls issued (endpoint and the file appended to the form
  data), the intervals that are running (handle and the task id their callback
  captured), the handle the next \<open>setInterval\<close> returns, the toasts shown and the
  arguments of each \<open>onUploadComplete\<close> call.
\<close>

record client =
  files :: "UploadedFile list"
  isUploading :: bool
  fetch_calls :: "(string \<times> File) list"
  intervals :: "(nat \<times> string) list"
  next_interval :: nat
  toasts :: "toast list"
  uploadComplete_calls :: "UploadedFile list list"

text \<open>
  The component as it is first rendered: \<open>useState([])\<close>, \<open>useState(false)\<close>, nothing
  done yet. Timer handles are positive.
\<close>

definition initial_client :: client where
  "initial_client =
     \<lparr>files = [], isUploading = False, fetch_calls = [], intervals = [], next_interval = 1,
      toasts = [], uploadComplete_calls = []\<rparr>"

text \<open>
  \<open>addFiles\<close>: \<open>None\<close> is a null \<open>FileList\<close>. Each file comes with the values of
  \<open>Date.now()\<close> and \<open>Math.random().toString(36)\<close> read while its id is built;
  \<open>slice(2)\<close> drops the first two characters.
\<close>

definition new_task :: "File \<times> nat \<times> string \<Rightarrow> UploadedFile" where
  "new_task x =
     (case x of (f, now, r) \<Rightarrow>
        \<lparr>task_id = file_name f @ ''-'' @ show_nat now @ ''-'' @ drop 2 r,
         task_file = f, status = Pending, progress = 0, errorMessage = None\<rparr>)"

definition addFiles :: "(File \<times> nat \<times> string) list option \<Rightarrow> client \<Rightarrow> client" where
  "addFiles newFiles st =
     (case newFiles of
        None \<Rightarrow> st
      | Some fs \<Rightarrow> st\<lparr>files := files st @ map new_task fs\<rparr>)"

definition removeFile :: "string \<Rightarrow> client \<Rightarrow> client" where
  "removeFile tid st = st\<lparr>files := filter (\<lambda>f. task_id f \<noteq> tid) (files st)\<rparr>"

definition clearAll :: "client \<Rightarrow> client" where
  "clearAll st = st\<lparr>files := []\<rparr>"

subsection \<open>One submission\<close>

record fetch_response =
  resp_status :: nat
  statusText :: string

definition ok :: "fetch_response \<Rightarrow> bool" where
  "ok r = (200 \<le> resp_status r \<and> resp_status r \<le> 299)"

datatype fetch_outcome = Responded fetch_response | Rejected thrown

text \<open>
  \<open>uploadFile\<close> is an async function with one \<open>await\<close>. A call is in one of three
  conditions: its promise rejected (validation threw, outside the \<open>try\<close>), its promise
  resolved with a result, or it waits for \<open>fetch\<close>, holding its interval handle and the
  task object it was called with.
\<close>

datatype call = Threw thrown | Settled UploadedFile | Awaiting nat UploadedFile

text \<open>The part of \<open>uploadFile\<close> that runs until \<open>await fetch\<close>.\<close>

definition uploadFile_begin ::
  "regex_engine \<Rightarrow> props \<Rightarrow> UploadedFile \<Rightarrow> client \<Rightarrow> call \<times> client" where
  "uploadFile_begin rx cfg uploadedFile st =
     (case validateFile rx cfg (task_file uploadedFile) of
        Inl e \<Rightarrow> (Threw e, st)
      | Inr (Some validationError) \<Rightarrow>
          (Settled (uploadedFile\<lparr>status := Error, errorMessage := Some validationError\<rparr>), st)
      | Inr None \<Rightarrow>
          (let h = next_interval st in
           (Awaiting h uploadedFile,
            st\<lparr>files :=
                  map (\<lambda>f. if task_id f = task_id uploadedFile
                            then f\<lparr>status := Uploading, progress := 10\<rparr> else f) (files st),
                intervals := intervals st @ [(h, task_id uploadedFile)],
                next_interval := Suc h,
                fetch_calls := fetch_calls st @ [(endpoint cfg, task_file uploadedFile)]\<rparr>)))"

text \<open>The interval's callback, for the task id it captured.\<close>

definition interval_tick :: "string \<Rightarrow> client \<Rightarrow> client" where
  "interval_tick tid st =
     st\<lparr>files :=
          map (\<lambda>f. if task_id f = tid \<and> status f = Uploading \<and> progress f < 90
                    then f\<lparr>progress := min (progress f + 20) 90\<rparr> else f) (files st)\<rparr>"

text \<open>200 ms pass for interval \<open>h\<close>: its callback runs if the interval is still set.\<close>

definition fire :: "nat \<Rightarrow> client \<Rightarrow> client" where
  "fire h st = (case map_of (intervals st) h of None \<Rightarrow> st | Some tid \<Rightarrow> interval_tick tid st)"

definition clearInterval :: "nat \<Rightarrow> client \<Rightarrow> client" where
  "clearInterval h st = st\<lparr>intervals := filter (\<lambda>x. fst x \<noteq> h) (intervals st)\<rparr>"

text \<open>The \<open>catch\<close> block's message.\<close>

definition catch_message :: "thrown \<Rightarrow> string" where
  "catch_message e = (case e of ErrorObj m \<Rightarrow> m | NonError \<Rightarrow> ''Upload failed'')"

text \<open>
  The part of \<open>uploadFile\<close> after \<open>await fetch\<close>. When \<open>fetch\<close> rejects, control goes from
  the \<open>await\<close> to the \<open>catch\<close> block, past \<open>clearInterval\<close>.
\<close>

definition uploadFile_resume ::
  "UploadedFile \<Rightarrow> nat \<Rightarrow> fetch_outcome \<Rightarrow> client \<Rightarrow> UploadedFile \<times> client" where
  "uploadFile_resume uploadedFile h out st =
     (case out of
        Responded response \<Rightarrow>
          (let st' = clearInterval h st in
           if \<not> ok response then
             (uploadedFile\<lparr>status := Error,
                errorMessage :=
                  Some (catch_message (ErrorObj (''Upload failed: '' @ statusText response))),
                progress := 0\<rparr>, st')
           else (uploadedFile\<lparr>status := Success, progress := 100\<rparr>, st'))
      | Rejected e \<Rightarrow>
          (uploadedFile\<lparr>status := Error, errorMessage := Some (catch_message e),
             progress := 0\<rparr>, st))"

text \<open>
  One submission on its own: the call begins, its interval fires \<open>n\<close> times while the
  request is outstanding, then \<open>fetch\<close> settles with \<open>out\<close>. \<open>Inl\<close> is a rejected
  promise.
\<close>

definition uploadFile ::
  "regex_engine \<Rightarrow> props \<Rightarrow> UploadedFile \<Rightarrow> nat \<Rightarrow> fetch_outcome \<Rightarrow> client
     \<Rightarrow> (thrown + UploadedFile) \<times> client" where
  "uploadFile rx cfg uploadedFile n out st =
     (case uploadFile_begin rx cfg uploadedFile st of
        (Threw e, st1) \<Rightarrow> (Inl e, st1)
      | (Settled r, st1) \<Rightarrow> (Inr r, st1)
      | (Awaiting h t, st1) \<Rightarrow>
          (case uploadFile_resume t h out ((fire h ^^ n) st1) of (r, st2) \<Rightarrow> (Inr r, st2)))"

subsection \<open>handleUpload\<close>

text \<open>
  \<open>pendingFiles.map(uploadFile)\<close>: every call runs up to its \<open>await\<close> before the next one
  starts, in the order of the array.
\<close>

fun start_all ::
  "regex_engine \<Rightarrow> props \<Rightarrow> UploadedFile list \<Rightarrow> client \<Rightarrow> call list \<times> client" where
  "start_all rx cfg [] st = ([], st)"
| "start_all rx cfg (t # ts) st =
     (case uploadFile_begin rx cfg t st of
        (c, st1) \<Rightarrow> (case start_all rx cfg ts st1 of (cs, st2) \<Rightarrow> (c # cs, st2)))"

text \<open>
  \<open>Promise.all\<close> over the calls: rejected with the first rejection there is, resolved with
  the results in the order of the calls once every call has one, pending otherwise.
  Rejections only happen while the calls begin, so the first in the list is the first
  in time.
\<close>

fun first_thrown :: "call list \<Rightarrow> thrown option" where
  "first_thrown [] = None"
| "first_thrown (Threw e # cs) = Some e"
| "first_thrown (c # cs) = first_thrown cs"

fun results_of :: "call list \<Rightarrow> UploadedFile list option" where
  "results_of [] = Some []"
| "results_of (Settled r # cs) = (case results_of cs of None \<Rightarrow> None | Some rs \<Rightarrow> Some (r # rs))"
| "results_of (c # cs) = None"

definition promise_all :: "call list \<Rightarrow> (thrown + UploadedFile list) option" where
  "promise_all cs =
     (case first_thrown cs of
        Some e \<Rightarrow> Some (Inl e)
      | None \<Rightarrow> (case results_of cs of None \<Rightarrow> None | Some rs \<Rightarrow> Some (Inr rs)))"

text \<open>The rest of \<open>handleUpload\<close>, after \<open>await Promise.all\<close> gave \<open>results\<close>.\<close>

definition successCount :: "UploadedFile list \<Rightarrow> nat" where
  "successCount results = length (filter (\<lambda>r. status r = Success) results)"

definition errorCount :: "UploadedFile list \<Rightarrow> nat" where
  "errorCount results = length (filter (\<lambda>r. status r = Error) results)"

definition plural :: "nat \<Rightarrow> string" where
  "plural n = (if n > 1 then ''s'' else [])"

definition summary_toasts :: "UploadedFile list \<Rightarrow> toast list" where
  "summary_toasts results =
     (if successCount results > 0 then
        [\<lparr>title = ''Upload complete'',
          description = show_nat (successCount results) @ '' file''
            @ plural (successCount results) @ '' uploaded successfully.'',
          destructive = False\<rparr>]
      else [])
     @ (if errorCount results > 0 then
        [\<lparr>title = ''Some uploads failed'',
          description = show_nat (errorCount results) @ '' file''
            @ plural (errorCount results) @ '' failed to upload.'',
          destructive = True\<rparr>]
      else [])"

definition handleUpload_finish :: "props \<Rightarrow> UploadedFile list \<Rightarrow> client \<Rightarrow> client" where
  "handleUpload_finish cfg results st =
     st\<lparr>files :=
          map (\<lambda>f. case find (\<lambda>r. task_id r = task_id f) results of
                     Some result \<Rightarrow> result
                   | None \<Rightarrow> f) (files st),
        toasts := toasts st @ summary_toasts results,
        isUploading := False,
        uploadComplete_calls :=
          uploadComplete_calls st @ (if onUploadComplete cfg then [results] else [])\<rparr>"

text \<open>
  How a call of \<open>handleUpload\<close> ended: it returned at the guard, it ran to its end with
  these results, or its promise rejected because \<open>Promise.all\<close> did.
\<close>

datatype upload_outcome = NoPending | Completed "UploadedFile list" | Failed thrown

text \<open>
  A running \<open>handleUpload\<close>: the component's state, the \<open>uploadFile\<close> calls it made and
  its outcome, \<open>None\<close> while it waits for \<open>Promise.all\<close>.
\<close>

record session =
  client_state :: client
  calls :: "call list"
  outcome :: "upload_outcome option"

text \<open>The continuation of \<open>await Promise.all\<close> runs as soon as the promise settles.\<close>

definition advance :: "props \<Rightarrow> session \<Rightarrow> session" where
  "advance cfg s =
     (case outcome s of
        Some done \<Rightarrow> s
      | None \<Rightarrow>
          (case promise_all (calls s) of
             None \<Rightarrow> s
           | Some (Inl e) \<Rightarrow> s\<lparr>outcome := Some (Failed e)\<rparr>
           | Some (Inr results) \<Rightarrow>
               s\<lparr>client_state := handleUpload_finish cfg results (client_state s),
                 outcome := Some (Completed results)\<rparr>))"

definition handleUpload :: "regex_engine \<Rightarrow> props \<Rightarrow> client \<Rightarrow> session" where
  "handleUpload rx cfg st =
     (let pendingFiles = filter (\<lambda>f. status f = Pending) (files st) in
      if length pendingFiles = 0 then
        \<lparr>client_state =
           st\<lparr>toasts := toasts st @
                 [\<lparr>title = ''No files to upload'',
                   description = ''Please add files before uploading.'',
                   destructive = True\<rparr>]\<rparr>,
         calls = [], outcome = Some NoPending\<rparr>
      else
        (case start_all rx cfg pendingFiles (st\<lparr>isUploading := True\<rparr>) of
           (cs, st1) \<Rightarrow> advance cfg \<lparr>client_state = st1, calls = cs, outcome = None\<rparr>))"

text \<open>
  What happens next is up to the event loop: an interval fires, the \<open>fetch\<close> of the
  \<open>i\<close>-th call settles, or the user removes a task or clears the list. Events are
  handled one at a time, in any order.
\<close>

datatype event =
    Fire nat
  | Settle nat fetch_outcome
  | Remove string
  | Clear

definition step :: "props \<Rightarrow> event \<Rightarrow> session \<Rightarrow> session" where
  "step cfg ev s =
     (case ev of
        Fire h \<Rightarrow> s\<lparr>client_state := fire h (client_state s)\<rparr>
      | Remove tid \<Rightarrow> s\<lparr>client_state := removeFile tid (client_state s)\<rparr>
      | Clear \<Rightarrow> s\<lparr>client_state := clearAll (client_state s)\<rparr>
      | Settle i out \<Rightarrow>
          (if i < length (calls s) then
             (case calls s ! i of
                Awaiting h t \<Rightarrow>
                  (case uploadFile_resume t h out (client_state s) of
                     (r, st') \<Rightarrow>
                       advance cfg (s\<lparr>client_state := st', calls := (calls s)[i := Settled r]\<rparr>))
              | Settled r \<Rightarrow> s
              | Threw e \<Rightarrow> s)
           else s))"

fun run :: "props \<Rightarrow> event list \<Rightarrow> session \<Rightarrow> session" where
  "run cfg [] s = s"
| "run cfg (ev # evs) s = run cfg evs (step cfg ev s)"

text \<open>The outcome with which the \<open>fetch\<close> of call \<open>i\<close> settles in a list of events.\<close>

fun settled_with :: "nat \<Rightarrow> event list \<Rightarrow> fetch_outcome option" where
  "settled_with i [] = None"
| "settled_with i (Settle j out # evs) = (if j = i then Some out else settled_with i evs)"
| "settled_with i (ev # evs) = settled_with i evs"

text \<open>
  The value \<open>uploadFile\<close> returns for a task once its \<open>fetch\<close> has settled. It is built
  from the task object the call was given and the outcome alone, not from the state.
\<close>

definition result_for :: "UploadedFile \<Rightarrow> fetch_outcome \<Rightarrow> UploadedFile" where
  "result_for t out = fst (uploadFile_resume t 0 out initial_client)"

subsection \<open>A regular-expression engine for simple patterns\<close>

text \<open>
  The theorems below hold for every engine. Their examples need one, and this is the
  runtime's engine on the patterns built from ordinary characters, \<open>.\<close> and the
  quantifier \<open>*\<close>: a \<open>*\<close> with nothing before it to repeat is a \<open>SyntaxError\<close>, \<open>.\<close> stands
  for any character but a line break, \<open>x*\<close> for any number of \<open>x\<close>, and \<open>match\<close> looks
  for the pattern anywhere in the subject. It is used on such patterns only.
\<close>

datatype atom = Lit char | Dot

fun parse_pattern :: "string \<Rightarrow> (atom \<times> bool) list option" where
  "parse_pattern [] = Some []"
| "parse_pattern [c] =
     (if c = CHR ''*'' then None
      else Some [(if c = CHR ''.'' then Dot else Lit c, False)])"
| "parse_pattern (c # d # cs) =
     (if c = CHR ''*'' then None
      else if d = CHR ''*'' then
        map_option ((#) (if c = CHR ''.'' then Dot else Lit c, True)) (parse_pattern cs)
      else
        map_option ((#) (if c = CHR ''.'' then Dot else Lit c, False)) (parse_pattern (d # cs)))"

fun atom_ok :: "atom \<Rightarrow> char \<Rightarrow> bool" where
  "atom_ok (Lit x) c = (x = c)"
| "atom_ok Dot c = (c \<noteq> CHR 0x0A \<and> c \<noteq> CHR 0x0D)"

fun match_here :: "(atom \<times> bool) list \<Rightarrow> string \<Rightarrow> bool" where
  "match_here [] s = True"
| "match_here ((a, False) # r) [] = False"
| "match_here ((a, False) # r) (c # cs) = (atom_ok a c \<and> match_here r cs)"
| "match_here ((a, True) # r) [] = match_here r []"
| "match_here ((a, True) # r) (c # cs) =
     (match_here r (c # cs) \<or> (atom_ok a c \<and> match_here ((a, True) # r) cs))"

fun match_anywhere :: "(atom \<times> bool) list \<Rightarrow> string \<Rightarrow> bool" where
  "match_anywhere ps [] = match_here ps []"
| "match_anywhere ps (c # cs) = (match_here ps (c # cs) \<or> match_anywhere ps cs)"

definition simple_engine :: regex_engine where
  "simple_engine p subject =
     (case parse_pattern p of
        None \<Rightarrow>
          Inl (ErrorObj (''Invalid regular expression: /'' @ p @ ''/: Nothing to repeat''))
      | Some ps \<Rightarrow> Inr (match_anywhere ps subject))"

subsection \<open>Inputs for the examples\<close>

text \<open>A store with nothing in it, and a public address for every path.\<close>

definition empty_bucket :: bucket where
  "empty_bucket = \<lparr>objects = Map.empty, fault = None\<rparr>"

definition example_runtime :: "nat \<Rightarrow> string \<Rightarrow> runtime" where
  "example_runtime t r =
     \<lparr>createClient_throws = None, date_now = t, random_toString36 = r,
      getPublicUrl = (@) ''https://project.supabase.co/storage/v1/object/public/uploads/''\<rparr>"

definition post_file :: "File \<Rightarrow> request" where
  "post_file f = \<lparr>req_method = ''POST'', req_formData = Inr [(''file'', FileEntry f)]\<rparr>"

definition one_object :: "string \<Rightarrow> File \<Rightarrow> bucket" where
  "one_object k f = \<lparr>objects = [k \<mapsto> (f, file_type f)], fault = None\<rparr>"


text \<open>A task as \<open>addFiles\<close> makes it for a file dropped at a fixed time.\<close>

definition example_task :: "string \<Rightarrow> nat \<Rightarrow> string \<Rightarrow> UploadedFile" where
  "example_task nm sz ty =
     new_task (\<lparr>file_name = nm, file_size = sz, file_type = ty\<rparr>, 1700000000000, ''0.4fzyo82mvyr'')"

subsection \<open>An invariant of a running upload\<close>

text \<open>
  What holds of a \<open>handleUpload\<close> in which no call threw, from its start and after every
  event, given the toasts \<open>T\<close> and the callback calls \<open>U\<close> there were before it: while it
  waits, some call has no result yet and nothing was reported; once it has ended, it
  ended with the results of its calls, in their order, and reported them once.
\<close>

definition upload_invariant ::
  "props \<Rightarrow> toast list \<Rightarrow> UploadedFile list list \<Rightarrow> session \<Rightarrow> bool" where
  "upload_invariant cfg T U s =
     (first_thrown (calls s) = None \<and>
      (case outcome s of
         None \<Rightarrow>
           results_of (calls s) = None \<and> toasts (client_state s) = T \<and>
           uploadComplete_calls (client_state s) = U
       | Some NoPending \<Rightarrow> False
       | Some (Failed e) \<Rightarrow> False
       | Some (Completed rs) \<Rightarrow>
           results_of (calls s) = Some rs \<and>
           toasts (client_state s) = T @ summary_toasts rs \<and>
           uploadComplete_calls (client_state s)
             = U @ (if onUploadComplete cfg then [rs] else []) \<and>
           \<not> isUploading (client_state s)))"

text \<open>Two small text files dropped one millisecond apart.\<close>

definition two_files :: client where
  "two_files =
     addFiles (Some
       [(\<lparr>file_name = ''a.txt'', file_size = 5, file_type = ''text/plain''\<rparr>,
         1700000000001, ''0.a1''),
        (\<lparr>file_name = ''b.txt'', file_size = 7, file_type = ''text/plain''\<rparr>,
         1700000000002, ''0.b2'')])
       initial_client"

definition task_a :: UploadedFile where
  "task_a =
     \<lparr>task_id = ''a.txt-1700000000001-a1'',
      task_file = \<lparr>file_name = ''a.txt'', file_size = 5, file_type = ''text/plain''\<rparr>,
      status = Pending, progress = 0, errorMessage = None\<rparr>"

definition task_b :: UploadedFile where
  "task_b =
     \<lparr>task_id = ''b.txt-1700000000002-b2'',
      task_file = \<lparr>file_name = ''b.txt'', file_size = 7, file_type = ''text/plain''\<rparr>,
      status = Pending, progress = 0, errorMessage = None\<rparr>"

section \<open>Properties of the ingestion function\<close>

subsection \<open>Digits, names and the store\<close>

lemma below_ten: "k < 10 \<Longrightarrow> (k::nat) \<in> {0, 1, 2, 3, 4, 5, 6, 7, 8, 9}"
  by (simp, arith)

lemma digit_char_is_digit: "is_digit (digit_char d)"
proof -
  have "d mod 10 \<in> {0, 1, 2, 3, 4, 5, 6, 7, 8, 9}" by (rule below_ten) simp
  then show ?thesis unfolding digit_char_def is_digit_def by auto
qed

lemma show_nat_digits: "list_all is_digit (show_nat n)"
  by (induction n rule: show_nat.induct) (subst show_nat.simps, simp add: digit_char_is_digit)

lemma show_nat_nonempty: "show_nat n \<noteq> []"
  by (subst show_nat.simps) simp

lemma digit_char_inj: "a < 10 \<Longrightarrow> b < 10 \<Longrightarrow> digit_char a = digit_char b \<Longrightarrow> a = b"
proof -
  assume a: "a < 10" and b: "b < 10" and e: "digit_char a = digit_char b"
  have "a \<in> {0, 1, 2, 3, 4, 5, 6, 7, 8, 9}" using a by (rule below_ten)
  moreover have "b \<in> {0, 1, 2, 3, 4, 5, 6, 7, 8, 9}" using b by (rule below_ten)
  ultimately show ?thesis using e unfolding digit_char_def by auto
qed

lemma show_nat_inj: "show_nat m = show_nat n \<Longrightarrow> m = n"
proof (induction m arbitrary: n rule: show_nat.induct)
  case (1 m)
  show ?case
  proof (cases "m < 10")
    case True
    then have sm: "show_nat m = [digit_char m]" by (subst show_nat.simps) simp
    show ?thesis
    proof (cases "n < 10")
      case nT: True
      then have "show_nat n = [digit_char n]" by (subst show_nat.simps) simp
      with sm "1.prems" True nT show ?thesis by (simp add: digit_char_inj)
    next
      case nF: False
      then have "show_nat n = show_nat (n div 10) @ [digit_char (n mod 10)]"
        by (subst show_nat.simps) simp
      with sm "1.prems" show_nat_nonempty [of "n div 10"] show ?thesis by simp
    qed
  next
    case False
    then have sm: "show_nat m = show_nat (m div 10) @ [digit_char (m mod 10)]"
      by (subst show_nat.simps) simp
    show ?thesis
    proof (cases "n < 10")
      case nT: True
      then have "show_nat n = [digit_char n]" by (subst show_nat.simps) simp
      with sm "1.prems" show_nat_nonempty [of "m div 10"] show ?thesis by simp
    next
      case nF: False
      then have sn: "show_nat n = show_nat (n div 10) @ [digit_char (n mod 10)]"
        by (subst show_nat.simps) simp
      from sm sn "1.prems" have e1: "show_nat (m div 10) = show_nat (n div 10)"
        and e2: "digit_char (m mod 10) = digit_char (n mod 10)" by simp_all
      from "1.IH" [OF False e1] have d: "m div 10 = n div 10" .
      from e2 have r: "m mod 10 = n mod 10" by (simp add: digit_char_inj)
      from d r show ?thesis by (metis div_mult_mod_eq)
    qed
  qed
qed



lemma is_digit_hyphen: "\<not> is_digit CHR ''-''"
  by (simp add: is_digit_def)

lemma is_base36_hyphen: "\<not> is_base36 CHR ''-''"
  by (simp add: is_base36_def)

lemma is_safe_underscore: "is_safe CHR ''_''"
  by (simp add: is_safe_def)

lemma sanitizedName_length: "length (sanitizedName nm) = length nm"
  by (simp add: sanitizedName_def)

lemma sanitizedName_nth:
  "i < length nm \<Longrightarrow> sanitizedName nm ! i = (if is_safe (nm ! i) then nm ! i else CHR ''_'')"
  by (simp add: sanitizedName_def)

lemma sanitizedName_safe: "list_all is_safe (sanitizedName nm)"
  by (induction nm) (simp_all add: sanitizedName_def is_safe_underscore)

lemma randomStr_length: "length (randomStr r) = min 6 (length r - 2)"
  by (simp add: randomStr_def)

lemma randomStr_base36: "random_text r \<Longrightarrow> list_all is_base36 (randomStr r)"
proof -
  assume "random_text r"
  then have "list_all is_base36 (drop 2 r)"
    by (auto simp: random_text_def)
  then have "\<forall>c \<in> set (drop 2 r). is_base36 c" by (simp add: list_all_iff)
  then have "\<forall>c \<in> set (take 6 (drop 2 r)). is_base36 c" by (meson in_set_takeD)
  then show ?thesis by (simp add: randomStr_def list_all_iff)
qed

lemma digits_split:
  assumes "list_all is_digit ds"
  shows "takeWhile is_digit (ds @ CHR ''-'' # xs) = ds"
    and "dropWhile is_digit (ds @ CHR ''-'' # xs) = CHR ''-'' # xs"
  using assms by (simp_all add: list_all_iff takeWhile_append2 dropWhile_append2 is_digit_hyphen)

lemma storage_pattern_after_digits:
  assumes "list_all is_digit ds" "ds \<noteq> []"
  shows "storage_pattern (ds @ CHR ''-'' # ys) \<longleftrightarrow>
        length (take 6 ys) = 6 \<and> list_all is_base36 (take 6 ys) \<and>
        (case drop 6 ys of [] \<Rightarrow> False
          | d # r3 \<Rightarrow> d = CHR ''-'' \<and> r3 \<noteq> [] \<and> list_all is_safe r3)"
  using assms(2) by (simp add: storage_pattern_def digits_split [OF assms(1)])

lemma storage_pattern_parts:
  assumes ds: "list_all is_digit ds" "ds \<noteq> []" and tok: "list_all is_base36 tok"
  shows "storage_pattern (ds @ ''-'' @ tok @ ''-'' @ rest)
           \<longleftrightarrow> length tok = 6 \<and> rest \<noteq> [] \<and> list_all is_safe rest"
proof -
  define ys where "ys = tok @ CHR ''-'' # rest"
  have e: "ds @ ''-'' @ tok @ ''-'' @ rest = ds @ CHR ''-'' # ys"
    by (simp add: ys_def)
  have sp: "storage_pattern (ds @ ''-'' @ tok @ ''-'' @ rest) \<longleftrightarrow>
        length (take 6 ys) = 6 \<and> list_all is_base36 (take 6 ys) \<and>
        (case drop 6 ys of [] \<Rightarrow> False
          | d # r3 \<Rightarrow> d = CHR ''-'' \<and> r3 \<noteq> [] \<and> list_all is_safe r3)"
    unfolding e by (rule storage_pattern_after_digits [OF ds])
  consider (short) "length tok < 6" | (six) "length tok = 6" | (long) "length tok > 6"
    by linarith
  then show ?thesis
  proof cases
    case short
    then have "CHR ''-'' \<in> set (take 6 ys)"
      unfolding ys_def by (simp add: take_Cons')
    then have "\<not> list_all is_base36 (take 6 ys)"
      using is_base36_hyphen by (auto simp: list_all_iff)
    with sp short show ?thesis by simp
  next
    case six
    then have "take 6 ys = tok" "drop 6 ys = CHR ''-'' # rest"
      unfolding ys_def by simp_all
    with sp tok six show ?thesis by simp
  next
    case long
    then obtain c cs where d: "drop 6 tok = c # cs"
      by (cases "drop 6 tok") simp_all
    then have "c \<in> set tok" by (metis in_set_dropD list.set_intros(1))
    with tok have c: "c \<noteq> CHR ''-''" using is_base36_hyphen by (auto simp: list_all_iff)
    from long d have "drop 6 ys = c # cs @ CHR ''-'' # rest"
      unfolding ys_def by simp
    with sp long c show ?thesis by simp
  qed
qed

lemma uniqueFileName_pattern:
  assumes "random_text r"
  shows "storage_pattern (uniqueFileName t r nm) \<longleftrightarrow> length (randomStr r) = 6 \<and> nm \<noteq> []"
  using storage_pattern_parts [OF show_nat_digits show_nat_nonempty randomStr_base36 [OF assms],
      of t "sanitizedName nm"]
  by (simp add: uniqueFileName_def sanitizedName_safe) (simp add: sanitizedName_def)

lemma uniqueFileName_inj:
  assumes "uniqueFileName t1 r1 nm = uniqueFileName t2 r2 nm"
  shows "t1 = t2 \<and> randomStr r1 = randomStr r2"
proof -
  from assms have e: "show_nat t1 @ CHR ''-'' # randomStr r1 = show_nat t2 @ CHR ''-'' # randomStr r2"
    by (simp add: uniqueFileName_def)
  have "takeWhile is_digit (show_nat t1 @ CHR ''-'' # randomStr r1) = show_nat t1"
    by (rule digits_split(1) [OF show_nat_digits])
  moreover have "takeWhile is_digit (show_nat t2 @ CHR ''-'' # randomStr r2) = show_nat t2"
    by (rule digits_split(1) [OF show_nat_digits])
  ultimately have "show_nat t1 = show_nat t2" using e by simp
  then have "t1 = t2" by (rule show_nat_inj)
  with e show ?thesis by simp
qed

lemma storage_upload_keeps:
  "storage_upload b p f ct False = (r, b') \<Longrightarrow> objects b k = Some v \<Longrightarrow> objects b' k = Some v"
  by (auto simp: storage_upload_def split: option.splits)

lemma serve_keeps: "objects b k = Some v \<Longrightarrow> objects (snd (serve rt b req)) k = Some v"
  by (auto simp: serve_def Let_def
      split: option.splits sum.splits prod.splits form_entry.splits
      dest: storage_upload_keeps)


subsection \<open>Claim C2: the storage name\<close>

text \<open>
  C2, as the code has it. For a request that carries a file within the size limit, the
  storage name is the decimal timestamp, a hyphen, a token, a hyphen and the sanitized
  name. The token is what \<open>substring(2, 8)\<close> finds in the text of the random number: at
  most six characters of \<open>[0-9a-z]\<close>, and six only when that text has eight characters
  or more. The sanitized name has the length of the original one and every character
  outside \<open>[A-Za-z0-9._-]\<close> replaced by an underscore. The name matches
  \<open>^\d+-[0-9a-z]{6}-[A-Za-z0-9._-]+$\<close> exactly when the token has six characters and
  the original name is not empty. When the store takes the write, the response is 200
  and reports the name as the path, and the object is stored under it.
\<close>

theorem C2_storage_name:
  assumes "req_method req \<noteq> ''OPTIONS''" and "createClient_throws rt = None"
    and "req_formData req = Inr fd" and "formData_get fd ''file'' = Some (FileEntry f)"
    and "file_size f \<le> maxSize"
    and "random_text (random_toString36 rt)"
    and "N = uniqueFileName (date_now rt) (random_toString36 rt) (file_name f)"
    and "token = take 6 (drop 2 (random_toString36 rt))"
    and "clean = map (\<lambda>c. if is_safe c then c else CHR ''_'') (file_name f)"
  shows "N = show_nat (date_now rt) @ ''-'' @ token @ ''-'' @ clean
     \<and> show_nat (date_now rt) \<noteq> [] \<and> list_all is_digit (show_nat (date_now rt))
     \<and> length token = min 6 (length (random_toString36 rt) - 2) \<and> list_all is_base36 token
     \<and> length clean = length (file_name f) \<and> list_all is_safe clean
     \<and> (storage_pattern N \<longleftrightarrow> length token = 6 \<and> file_name f \<noteq> [])
     \<and> (fault b = None \<and> objects b N = None \<longrightarrow>
          serve rt b req =
            (json_response 200
               (SuccessJson True ''File uploaded successfully''
                  \<lparr>info_name = file_name f, info_size = file_size f, info_type = file_type f,
                   info_path = N, info_url = getPublicUrl rt N\<rparr>),
             b\<lparr>objects := (objects b)(N \<mapsto> (f, file_type f))\<rparr>))"
proof -
  have tok: "token = randomStr (random_toString36 rt)"
    by (simp add: assms(8) randomStr_def)
  have cl: "clean = sanitizedName (file_name f)"
    by (simp add: assms(9) sanitizedName_def)
  have n: "N = show_nat (date_now rt) @ ''-'' @ token @ ''-'' @ clean"
    by (simp add: assms(7) uniqueFileName_def tok cl)
  have p: "storage_pattern N \<longleftrightarrow> length token = 6 \<and> file_name f \<noteq> []"
    using uniqueFileName_pattern [OF assms(6)] by (simp add: assms(7) tok)
  have s: "fault b = None \<and> objects b N = None \<longrightarrow>
          serve rt b req =
            (json_response 200
               (SuccessJson True ''File uploaded successfully''
                  \<lparr>info_name = file_name f, info_size = file_size f, info_type = file_type f,
                   info_path = N, info_url = getPublicUrl rt N\<rparr>),
             b\<lparr>objects := (objects b)(N \<mapsto> (f, file_type f))\<rparr>)"
    using assms(1-5) by (simp add: serve_def storage_upload_def assms(7) Let_def)
  show ?thesis
    using n p s show_nat_nonempty show_nat_digits randomStr_base36 [OF assms(6)]
      sanitizedName_safe [of "file_name f"] randomStr_length [of "random_toString36 rt"]
    by (simp add: tok cl sanitizedName_length)
qed

text \<open>C2 at a one-megabyte PNG whose name has a space in it.\<close>

theorem C2_storage_name_witness:
  "req_method (post_file \<lparr>file_name = ''my photo.png'', file_size = 1048576, file_type = ''image/png''\<rparr>) \<noteq> ''OPTIONS''
   \<and> (1048576::nat) \<le> maxSize
   \<and> random_text ''0.4fzyo82mvyr''
   \<and> uniqueFileName 1700000000000 ''0.4fzyo82mvyr'' ''my photo.png'' = ''1700000000000-4fzyo8-my_photo.png''
   \<and> storage_pattern ''1700000000000-4fzyo8-my_photo.png''
   \<and> fst (serve (example_runtime 1700000000000 ''0.4fzyo82mvyr'') empty_bucket
        (post_file \<lparr>file_name = ''my photo.png'', file_size = 1048576, file_type = ''image/png''\<rparr>))
      = json_response 200
          (SuccessJson True ''File uploaded successfully''
             \<lparr>info_name = ''my photo.png'', info_size = 1048576, info_type = ''image/png'',
              info_path = ''1700000000000-4fzyo8-my_photo.png'',
              info_url = ''https://project.supabase.co/storage/v1/object/public/uploads/1700000000000-4fzyo8-my_photo.png''\<rparr>)"
proof -
  let ?f = "\<lparr>file_name = ''my photo.png'', file_size = 1048576, file_type = ''image/png''\<rparr>"
  let ?rt = "example_runtime 1700000000000 ''0.4fzyo82mvyr''"
  let ?N = "''1700000000000-4fzyo8-my_photo.png''"
  have h1: "req_method (post_file ?f) \<noteq> ''OPTIONS''" by (simp add: post_file_def)
  have h2: "createClient_throws ?rt = None" by (simp add: example_runtime_def)
  have h3: "req_formData (post_file ?f) = Inr [(''file'', FileEntry ?f)]"
    by (simp add: post_file_def)
  have h4: "formData_get [(''file'', FileEntry ?f)] ''file'' = Some (FileEntry ?f)"
    by (simp add: formData_get_def)
  have h5: "file_size ?f \<le> maxSize" by (simp add: maxSize_def)
  have h6: "random_text (random_toString36 ?rt)"
    by (simp add: example_runtime_def random_text_def is_base36_def)
  have h7: "?N = uniqueFileName (date_now ?rt) (random_toString36 ?rt) (file_name ?f)"
    by (simp add: example_runtime_def uniqueFileName_def show_nat.simps digit_char_def
        randomStr_def sanitizedName_def is_safe_def)
  have h8: "''4fzyo8'' = take 6 (drop 2 (random_toString36 ?rt))"
    by (simp add: example_runtime_def)
  have h9: "''my_photo.png'' = map (\<lambda>c. if is_safe c then c else CHR ''_'') (file_name ?f)"
    by (simp add: is_safe_def)
  note c = C2_storage_name [OF h1 h2 h3 h4 h5 h6 h7 h8 h9, of empty_bucket]
  from c have p: "storage_pattern ?N" by simp
  from c have "fault empty_bucket = None \<and> objects empty_bucket ?N = None \<longrightarrow>
      serve ?rt empty_bucket (post_file ?f) =
        (json_response 200
               (SuccessJson True ''File uploaded successfully''
                  \<lparr>info_name = file_name ?f, info_size = file_size ?f, info_type = file_type ?f,
                   info_path = ?N, info_url = getPublicUrl ?rt ?N\<rparr>),
             empty_bucket\<lparr>objects := (objects empty_bucket)(?N \<mapsto> (?f, file_type ?f))\<rparr>)"
    by blast
  then have s: "fst (serve ?rt empty_bucket (post_file ?f)) =
        json_response 200
               (SuccessJson True ''File uploaded successfully''
                  \<lparr>info_name = file_name ?f, info_size = file_size ?f, info_type = file_type ?f,
                   info_path = ?N, info_url = getPublicUrl ?rt ?N\<rparr>)"
    by (simp add: empty_bucket_def)
  have u: "getPublicUrl ?rt ?N = ''https://project.supabase.co/storage/v1/object/public/uploads/1700000000000-4fzyo8-my_photo.png''"
    by (simp add: example_runtime_def)
  from h5 have h5': "(1048576::nat) \<le> maxSize" by simp
  from h6 have h6': "random_text ''0.4fzyo82mvyr''" by (simp add: example_runtime_def)
  from h7 have h7': "uniqueFileName 1700000000000 ''0.4fzyo82mvyr'' ''my photo.png'' = ?N"
    by (simp add: example_runtime_def)
  from s u have s': "fst (serve ?rt empty_bucket (post_file ?f)) =
        json_response 200
               (SuccessJson True ''File uploaded successfully''
                  \<lparr>info_name = ''my photo.png'', info_size = 1048576, info_type = ''image/png'',
                   info_path = ?N, info_url = ''https://project.supabase.co/storage/v1/object/public/uploads/1700000000000-4fzyo8-my_photo.png''\<rparr>)"
    by simp
  from h1 h5' h6' h7' p s' show ?thesis by blast
qed

text \<open>
  C2 as stated fails when the random number prints with fewer than six base-36 digits:
  \<open>Math.random()\<close> may return 0.5, whose text is \<open>0.i\<close>. The upload is accepted with
  status 200, the token is the single character \<open>i\<close>, and the name does not match the
  pattern.
\<close>

theorem C2_six_characters_counterexample:
  "fst (serve (example_runtime 1700000000000 ''0.i'') empty_bucket
        (post_file \<lparr>file_name = ''a.txt'', file_size = 1048576, file_type = ''text/plain''\<rparr>))
      = json_response 200
          (SuccessJson True ''File uploaded successfully''
             \<lparr>info_name = ''a.txt'', info_size = 1048576, info_type = ''text/plain'',
              info_path = ''1700000000000-i-a.txt'',
              info_url = ''https://project.supabase.co/storage/v1/object/public/uploads/1700000000000-i-a.txt''\<rparr>)
   \<and> randomStr ''0.i'' = ''i''
   \<and> \<not> storage_pattern ''1700000000000-i-a.txt''"
proof -
  have n: "uniqueFileName 1700000000000 ''0.i'' ''a.txt'' = ''1700000000000-i-a.txt''"
    by (simp add: uniqueFileName_def show_nat.simps digit_char_def randomStr_def
        sanitizedName_def is_safe_def)
  have s: "\<not> storage_pattern ''1700000000000-i-a.txt''"
    by (simp add: storage_pattern_def is_digit_def is_base36_def)
  have r: "randomStr ''0.i'' = ''i''" by (simp add: randomStr_def)
  have "fst (serve (example_runtime 1700000000000 ''0.i'') empty_bucket
        (post_file \<lparr>file_name = ''a.txt'', file_size = 1048576, file_type = ''text/plain''\<rparr>))
      = json_response 200
          (SuccessJson True ''File uploaded successfully''
             \<lparr>info_name = ''a.txt'', info_size = 1048576, info_type = ''text/plain'',
              info_path = ''1700000000000-i-a.txt'',
              info_url = ''https://project.supabase.co/storage/v1/object/public/uploads/1700000000000-i-a.txt''\<rparr>)"
    by (simp add: serve_def post_file_def example_runtime_def empty_bucket_def formData_get_def
        maxSize_def storage_upload_def n Let_def)
  with r s show ?thesis by blast
qed


subsection \<open>Claim C3: when the handler answers 400\<close>

text \<open>
  C3, as the code has it. The handler answers with status 400 if and only if the
  request is not the pre-flight one, the storage client was created, the form data was
  read, and the \<open>file\<close> field is missing, or is an empty text, or is a file larger than
  10 MiB. The response then has the JSON body \<open>{error}\<close> with the error
  \<open>File exceeds 10MB limit\<close> for a file and exactly \<open>No file provided\<close> otherwise, and
  the store is left alone. The handler takes nothing from the client's own validation:
  the theorem holds whatever the client did before sending.
\<close>

theorem C3_bad_request:
  "(http_status (fst (serve rt b req)) = 400 \<longleftrightarrow>
      req_method req \<noteq> ''OPTIONS'' \<and> createClient_throws rt = None \<and>
      (\<exists>fd. req_formData req = Inr fd \<and>
         (formData_get fd ''file'' = None
          \<or> formData_get fd ''file'' = Some (TextEntry [])
          \<or> (\<exists>f. formData_get fd ''file'' = Some (FileEntry f)
                 \<and> file_size f > 10 * 1024 * 1024))))
   \<and> (http_status (fst (serve rt b req)) = 400 \<longrightarrow>
        snd (serve rt b req) = b \<and>
        (\<exists>fd. req_formData req = Inr fd \<and>
           fst (serve rt b req) =
             json_response 400
               (ErrorJson (case formData_get fd ''file'' of
                             Some (FileEntry f) \<Rightarrow> ''File exceeds 10MB limit''
                           | _ \<Rightarrow> ''No file provided''))))"
proof -
  have st: "http_status (unexpected e) = 500" for e
    by (simp add: unexpected_def json_response_def)
  have up: "http_status (fst (case storage_upload b n f ct False of
                (Inl msg, b') \<Rightarrow> (json_response 500 (ErrorJson (''Upload failed: '' @ msg)), b')
              | (Inr path, b') \<Rightarrow> (json_response 200 (SuccessJson True m (g path)), b'))) \<noteq> 400"
    for n f ct m g
    by (simp add: json_response_def split: prod.splits sum.splits)
  show ?thesis
  proof (cases "req_method req = ''OPTIONS''")
    case True
    then show ?thesis by (simp add: serve_def)
  next
    case False
    note m = this
    show ?thesis
    proof (cases "createClient_throws rt")
      case (Some e)
      with m show ?thesis by (simp add: serve_def st)
    next
      case None
      note c = this
      show ?thesis
      proof (cases "req_formData req")
        case (Inl e)
        with m c show ?thesis by (simp add: serve_def st)
      next
        case (Inr fd)
        show ?thesis
        proof (cases "formData_get fd ''file''")
          case None
          with m c Inr show ?thesis by (simp add: serve_def json_response_def)
        next
          case (Some entry)
          show ?thesis
          proof (cases entry)
            case (TextEntry s)
            with m c Inr Some show ?thesis
              by (cases "s = []") (simp_all add: serve_def json_response_def st)
          next
            case (FileEntry f)
            show ?thesis
            proof (cases "file_size f > maxSize")
              case True
              with m c Inr Some FileEntry show ?thesis
                by (simp add: serve_def json_response_def maxSize_def)
            next
              case False
              with m c Inr Some FileEntry up show ?thesis
                by (simp add: serve_def maxSize_def Let_def)
            qed
          qed
        qed
      qed
    qed
  qed
qed

text \<open>
  C3 at a request with no field, at a file of 10 MiB and one byte, and at a file of
  exactly 10 MiB, which is stored.
\<close>

theorem C3_bad_request_witness:
  "req_method \<lparr>req_method = ''POST'', req_formData = Inr []\<rparr> \<noteq> ''OPTIONS''
   \<and> createClient_throws (example_runtime 1700000000000 ''0.4fzyo82mvyr'') = None
   \<and> formData_get [] ''file'' = None
   \<and> serve (example_runtime 1700000000000 ''0.4fzyo82mvyr'') empty_bucket
        \<lparr>req_method = ''POST'', req_formData = Inr []\<rparr>
      = (json_response 400 (ErrorJson ''No file provided''), empty_bucket)
   \<and> formData_get [(''file'', FileEntry \<lparr>file_name = ''big.bin'', file_size = 10485761,
          file_type = ''application/octet-stream''\<rparr>)] ''file''
      = Some (FileEntry \<lparr>file_name = ''big.bin'', file_size = 10485761,
          file_type = ''application/octet-stream''\<rparr>)
   \<and> serve (example_runtime 1700000000000 ''0.4fzyo82mvyr'') empty_bucket
        (post_file \<lparr>file_name = ''big.bin'', file_size = 10485761,
           file_type = ''application/octet-stream''\<rparr>)
      = (json_response 400 (ErrorJson ''File exceeds 10MB limit''), empty_bucket)
   \<and> http_status (fst (serve (example_runtime 1700000000000 ''0.4fzyo82mvyr'') empty_bucket
        (post_file \<lparr>file_name = ''fits.bin'', file_size = 10485760,
           file_type = ''application/octet-stream''\<rparr>))) \<noteq> 400"
proof -
  let ?rt = "example_runtime 1700000000000 ''0.4fzyo82mvyr''"
  let ?f = "\<lparr>file_name = ''big.bin'', file_size = 10485761, file_type = ''application/octet-stream''\<rparr>"
  let ?g = "\<lparr>file_name = ''fits.bin'', file_size = 10485760, file_type = ''application/octet-stream''\<rparr>"
  let ?r0 = "\<lparr>req_method = ''POST'', req_formData = Inr []\<rparr>"
  have a1: "req_method ?r0 \<noteq> ''OPTIONS''" by simp
  have a2: "createClient_throws ?rt = None" by (simp add: example_runtime_def)
  have a3: "formData_get [] ''file'' = None" by (simp add: formData_get_def)
  have a4: "req_formData ?r0 = Inr []" by simp
  note t0 = C3_bad_request [of ?rt empty_bucket ?r0]
  from t0 a1 a2 a3 a4 have s0: "http_status (fst (serve ?rt empty_bucket ?r0)) = 400" by blast
  with t0 have "snd (serve ?rt empty_bucket ?r0) = empty_bucket"
    and "\<exists>fd. req_formData ?r0 = Inr fd \<and> fst (serve ?rt empty_bucket ?r0) =
             json_response 400
               (ErrorJson (case formData_get fd ''file'' of
                             Some (FileEntry f) \<Rightarrow> ''File exceeds 10MB limit''
                           | _ \<Rightarrow> ''No file provided''))"
    by blast+
  then have c1: "serve ?rt empty_bucket ?r0
      = (json_response 400 (ErrorJson ''No file provided''), empty_bucket)"
    using a3 by (auto simp: prod_eq_iff)
  have b1: "req_method (post_file ?f) \<noteq> ''OPTIONS''" by (simp add: post_file_def)
  have b3: "formData_get [(''file'', FileEntry ?f)] ''file'' = Some (FileEntry ?f)"
    by (simp add: formData_get_def)
  have b4: "req_formData (post_file ?f) = Inr [(''file'', FileEntry ?f)]"
    by (simp add: post_file_def)
  have b5: "file_size ?f > 10 * 1024 * 1024" by simp
  note t1 = C3_bad_request [of ?rt empty_bucket "post_file ?f"]
  from t1 b1 a2 b3 b4 b5 have s1: "http_status (fst (serve ?rt empty_bucket (post_file ?f))) = 400"
    by blast
  with t1 have "snd (serve ?rt empty_bucket (post_file ?f)) = empty_bucket"
    and "\<exists>fd. req_formData (post_file ?f) = Inr fd \<and> fst (serve ?rt empty_bucket (post_file ?f)) =
             json_response 400
               (ErrorJson (case formData_get fd ''file'' of
                             Some (FileEntry f) \<Rightarrow> ''File exceeds 10MB limit''
                           | _ \<Rightarrow> ''No file provided''))"
    by blast+
  then have c2: "serve ?rt empty_bucket (post_file ?f)
      = (json_response 400 (ErrorJson ''File exceeds 10MB limit''), empty_bucket)"
    using b3 b4 by (auto simp: prod_eq_iff)
  have g3: "formData_get [(''file'', FileEntry ?g)] ''file'' = Some (FileEntry ?g)"
    by (simp add: formData_get_def)
  have g4: "req_formData (post_file ?g) = Inr [(''file'', FileEntry ?g)]"
    by (simp add: post_file_def)
  have g5: "\<not> file_size ?g > 10 * 1024 * 1024" by simp
  have "\<not> (\<exists>fd. req_formData (post_file ?g) = Inr fd \<and>
         (formData_get fd ''file'' = None
          \<or> formData_get fd ''file'' = Some (TextEntry [])
          \<or> (\<exists>f. formData_get fd ''file'' = Some (FileEntry f)
                 \<and> file_size f > 10 * 1024 * 1024)))"
    using g3 g4 g5 by auto
  with C3_bad_request [of ?rt empty_bucket "post_file ?g"]
  have c3: "http_status (fst (serve ?rt empty_bucket (post_file ?g))) \<noteq> 400" by blast
  from a1 a2 a3 c1 b3 c2 c3 show ?thesis by blast
qed

text \<open>
  C3 as stated fails in both directions. A request whose \<open>file\<close> field is the empty text
  has the field and no file over the limit, and gets 400 with \<open>No file provided\<close>. A
  request with no \<open>file\<close> field gets 500 when the storage client cannot be created, and
  200 when it is the pre-flight request.
\<close>

theorem C3_empty_text_counterexample:
  "formData_get [(''file'', TextEntry [])] ''file'' = Some (TextEntry [])
   \<and> serve (example_runtime 1700000000000 ''0.4fzyo82mvyr'') empty_bucket
        \<lparr>req_method = ''POST'', req_formData = Inr [(''file'', TextEntry [])]\<rparr>
      = (json_response 400 (ErrorJson ''No file provided''), empty_bucket)
   \<and> formData_get [] ''file'' = None
   \<and> http_status (fst (serve
        ((example_runtime 1700000000000 ''0.4fzyo82mvyr'')
           \<lparr>createClient_throws := Some (ErrorObj ''supabaseUrl is required.'')\<rparr>)
        empty_bucket \<lparr>req_method = ''POST'', req_formData = Inr []\<rparr>)) = 500
   \<and> http_status (fst (serve (example_runtime 1700000000000 ''0.4fzyo82mvyr'') empty_bucket
        \<lparr>req_method = ''OPTIONS'', req_formData = Inr []\<rparr>)) = 200"
proof -
  have a: "formData_get [(''file'', TextEntry [])] ''file'' = Some (TextEntry [])"
    by (simp add: formData_get_def)
  have b: "serve (example_runtime 1700000000000 ''0.4fzyo82mvyr'') empty_bucket
        \<lparr>req_method = ''POST'', req_formData = Inr [(''file'', TextEntry [])]\<rparr>
      = (json_response 400 (ErrorJson ''No file provided''), empty_bucket)"
    by (simp add: serve_def example_runtime_def a)
  have c: "formData_get [] ''file'' = None" by (simp add: formData_get_def)
  have d: "http_status (fst (serve
        ((example_runtime 1700000000000 ''0.4fzyo82mvyr'')
           \<lparr>createClient_throws := Some (ErrorObj ''supabaseUrl is required.'')\<rparr>)
        empty_bucket \<lparr>req_method = ''POST'', req_formData = Inr []\<rparr>)) = 500"
    by (simp add: serve_def example_runtime_def unexpected_def json_response_def)
  have e: "http_status (fst (serve (example_runtime 1700000000000 ''0.4fzyo82mvyr'') empty_bucket
        \<lparr>req_method = ''OPTIONS'', req_formData = Inr []\<rparr>)) = 200"
    by (simp add: serve_def)
  from a b c d e show ?thesis by blast
qed

subsection \<open>Claim C8: distinct names, and no write over a stored object\<close>

text \<open>
  C8. For one original name, two invocations whose pairs of timestamp and random token
  differ derive different storage names. Every object in the store before a request is
  in it, unchanged, after the request; and a successful ingestion puts its object under
  a name that was free.
\<close>

theorem C8_distinct_names_no_overwrite:
  "((t1, randomStr r1) \<noteq> (t2, randomStr r2) \<longrightarrow>
       uniqueFileName t1 r1 nm \<noteq> uniqueFileName t2 r2 nm)
   \<and> (objects b k = Some v \<longrightarrow> objects (snd (serve rt b req)) k = Some v)
   \<and> (http_body (fst (serve rt b req)) = SuccessJson s m info \<longrightarrow>
        objects b (info_path info) = None \<and>
        info_path info = uniqueFileName (date_now rt) (random_toString36 rt) (info_name info) \<and>
        (\<exists>f. objects (snd (serve rt b req)) = (objects b)(info_path info \<mapsto> (f, file_type f))))"
proof -
  have a: "(t1, randomStr r1) \<noteq> (t2, randomStr r2) \<longrightarrow>
       uniqueFileName t1 r1 nm \<noteq> uniqueFileName t2 r2 nm"
    using uniqueFileName_inj [of t1 r1 nm t2 r2] by auto
  have c: "http_body (fst (serve rt b req)) = SuccessJson s m info \<longrightarrow>
        objects b (info_path info) = None \<and>
        info_path info = uniqueFileName (date_now rt) (random_toString36 rt) (info_name info) \<and>
        (\<exists>f. objects (snd (serve rt b req)) = (objects b)(info_path info \<mapsto> (f, file_type f)))"
    by (auto simp: serve_def json_response_def unexpected_def Let_def storage_upload_def
        split: option.splits sum.splits prod.splits if_splits form_entry.splits)
  from a c serve_keeps [of b k v rt req] show ?thesis by blast
qed


text \<open>
  C8 at a store that holds \<open>a.txt\<close>: a second \<open>a.txt\<close> in the same millisecond with
  another token is stored beside it, and with the same token it is refused with status
  500 and the store stays as it was.
\<close>

theorem C8_distinct_names_no_overwrite_witness:
  "(1700000000000::nat, randomStr ''0.4fzyo82mvyr'') \<noteq> (1700000000000, randomStr ''0.9zzzzzabc'')
   \<and> uniqueFileName 1700000000000 ''0.4fzyo82mvyr'' ''a.txt''
       \<noteq> uniqueFileName 1700000000000 ''0.9zzzzzabc'' ''a.txt''
   \<and> objects (one_object ''1700000000000-4fzyo8-a.txt''
        \<lparr>file_name = ''a.txt'', file_size = 5, file_type = ''text/plain''\<rparr>) ''1700000000000-4fzyo8-a.txt''
       = Some (\<lparr>file_name = ''a.txt'', file_size = 5, file_type = ''text/plain''\<rparr>, ''text/plain'')
   \<and> objects (snd (serve (example_runtime 1700000000000 ''0.9zzzzzabc'')
         (one_object ''1700000000000-4fzyo8-a.txt''
            \<lparr>file_name = ''a.txt'', file_size = 5, file_type = ''text/plain''\<rparr>)
         (post_file \<lparr>file_name = ''a.txt'', file_size = 7, file_type = ''text/plain''\<rparr>)))
         ''1700000000000-4fzyo8-a.txt''
       = Some (\<lparr>file_name = ''a.txt'', file_size = 5, file_type = ''text/plain''\<rparr>, ''text/plain'')
   \<and> objects (snd (serve (example_runtime 1700000000000 ''0.9zzzzzabc'')
         (one_object ''1700000000000-4fzyo8-a.txt''
            \<lparr>file_name = ''a.txt'', file_size = 5, file_type = ''text/plain''\<rparr>)
         (post_file \<lparr>file_name = ''a.txt'', file_size = 7, file_type = ''text/plain''\<rparr>)))
         ''1700000000000-9zzzzz-a.txt''
       = Some (\<lparr>file_name = ''a.txt'', file_size = 7, file_type = ''text/plain''\<rparr>, ''text/plain'')
   \<and> objects (one_object ''1700000000000-4fzyo8-a.txt''
        \<lparr>file_name = ''a.txt'', file_size = 5, file_type = ''text/plain''\<rparr>) ''1700000000000-9zzzzz-a.txt''
       = None
   \<and> serve (example_runtime 1700000000000 ''0.4fzyo82mvyr'')
         (one_object ''1700000000000-4fzyo8-a.txt''
            \<lparr>file_name = ''a.txt'', file_size = 5, file_type = ''text/plain''\<rparr>)
         (post_file \<lparr>file_name = ''a.txt'', file_size = 7, file_type = ''text/plain''\<rparr>)
       = (json_response 500 (ErrorJson ''Upload failed: The resource already exists''),
          one_object ''1700000000000-4fzyo8-a.txt''
            \<lparr>file_name = ''a.txt'', file_size = 5, file_type = ''text/plain''\<rparr>)"
proof -
  let ?old = "\<lparr>file_name = ''a.txt'', file_size = 5, file_type = ''text/plain''\<rparr>"
  let ?new = "\<lparr>file_name = ''a.txt'', file_size = 7, file_type = ''text/plain''\<rparr>"
  let ?K = "''1700000000000-4fzyo8-a.txt''"
  let ?b = "one_object ?K ?old"
  let ?rt = "example_runtime 1700000000000 ''0.9zzzzzabc''"
  have n1: "uniqueFileName 1700000000000 ''0.4fzyo82mvyr'' ''a.txt'' = ?K"
    by (simp add: uniqueFileName_def show_nat.simps digit_char_def randomStr_def
        sanitizedName_def is_safe_def)
  have n2: "uniqueFileName 1700000000000 ''0.9zzzzzabc'' ''a.txt'' = ''1700000000000-9zzzzz-a.txt''"
    by (simp add: uniqueFileName_def show_nat.simps digit_char_def randomStr_def
        sanitizedName_def is_safe_def)
  have d: "(1700000000000::nat, randomStr ''0.4fzyo82mvyr'') \<noteq> (1700000000000, randomStr ''0.9zzzzzabc'')"
    by (simp add: randomStr_def)
  have o: "objects ?b ?K = Some (?old, ''text/plain'')"
    by (simp add: one_object_def)
  have s: "serve ?rt ?b (post_file ?new) =
      (json_response 200
               (SuccessJson True ''File uploaded successfully''
                  \<lparr>info_name = ''a.txt'', info_size = 7, info_type = ''text/plain'',
                   info_path = ''1700000000000-9zzzzz-a.txt'',
                   info_url = getPublicUrl ?rt ''1700000000000-9zzzzz-a.txt''\<rparr>),
       ?b\<lparr>objects := (objects ?b)(''1700000000000-9zzzzz-a.txt'' \<mapsto> (?new, ''text/plain''))\<rparr>)"
    by (simp add: serve_def post_file_def example_runtime_def one_object_def formData_get_def
        maxSize_def storage_upload_def n2 Let_def json_response_def)
  then have body: "http_body (fst (serve ?rt ?b (post_file ?new))) =
      SuccessJson True ''File uploaded successfully''
                  \<lparr>info_name = ''a.txt'', info_size = 7, info_type = ''text/plain'',
                   info_path = ''1700000000000-9zzzzz-a.txt'',
                   info_url = getPublicUrl ?rt ''1700000000000-9zzzzz-a.txt''\<rparr>"
    by (simp add: json_response_def)
  note c = C8_distinct_names_no_overwrite [of 1700000000000 "''0.4fzyo82mvyr''" 1700000000000
      "''0.9zzzzzabc''" "''a.txt''" ?b ?K "(?old, ''text/plain'')" ?rt "post_file ?new"
      True "''File uploaded successfully''"
      "\<lparr>info_name = ''a.txt'', info_size = 7, info_type = ''text/plain'',
                   info_path = ''1700000000000-9zzzzz-a.txt'',
                   info_url = getPublicUrl ?rt ''1700000000000-9zzzzz-a.txt''\<rparr>"]
  from c d have r1: "uniqueFileName 1700000000000 ''0.4fzyo82mvyr'' ''a.txt''
       \<noteq> uniqueFileName 1700000000000 ''0.9zzzzzabc'' ''a.txt''" by blast
  from c o have r2: "objects (snd (serve ?rt ?b (post_file ?new))) ?K = Some (?old, ''text/plain'')"
    by blast
  from s have r3: "objects (snd (serve ?rt ?b (post_file ?new))) ''1700000000000-9zzzzz-a.txt''
      = Some (?new, ''text/plain'')" by simp
  have r4: "serve (example_runtime 1700000000000 ''0.4fzyo82mvyr'') ?b (post_file ?new)
       = (json_response 500 (ErrorJson ''Upload failed: The resource already exists''), ?b)"
    by (simp add: serve_def post_file_def example_runtime_def one_object_def formData_get_def
        maxSize_def storage_upload_def n1 Let_def)
  from c body have "objects ?b (info_path \<lparr>info_name = ''a.txt'', info_size = 7,
      info_type = ''text/plain'', info_path = ''1700000000000-9zzzzz-a.txt'',
      info_url = getPublicUrl ?rt ''1700000000000-9zzzzz-a.txt''\<rparr>) = None"
    by blast
  then have r5: "objects ?b ''1700000000000-9zzzzz-a.txt'' = None" by simp
  from d r1 o r2 r3 r4 r5 show ?thesis by blast
qed

section \<open>Properties of the upload queue\<close>

subsection \<open>Matching and example tasks\<close>

lemma example_task_eq:
  "example_task nm sz ty =
     \<lparr>task_id = nm @ ''-1700000000000-4fzyo82mvyr'',
      task_file = \<lparr>file_name = nm, file_size = sz, file_type = ty\<rparr>,
      status = Pending, progress = 0, errorMessage = None\<rparr>"
  by (simp add: example_task_def new_task_def show_nat.simps digit_char_def)

lemma some_match_True:
  "some_match rx ps s = Inr True \<Longrightarrow> \<exists>p \<in> set ps. rx p s = Inr True"
  by (induction ps) (auto split: sum.splits bool.splits)

lemma some_match_False:
  "some_match rx ps s = Inr False \<longleftrightarrow> (\<forall>p \<in> set ps. rx p s = Inr False)"
  by (induction ps) (auto split: sum.splits bool.splits)

lemma some_match_iff:
  "some_match rx ps s = Inr True \<longleftrightarrow>
     (\<exists>i < length ps. rx (ps ! i) s = Inr True \<and> (\<forall>j < i. rx (ps ! j) s = Inr False))"
proof (induction ps)
  case Nil
  then show ?case by simp
next
  case (Cons p ps)
  show ?case
  proof (cases "rx p s")
    case (Inl e)
    have "\<not> (\<exists>i < length (p # ps). rx ((p # ps) ! i) s = Inr True \<and> (\<forall>j < i. rx ((p # ps) ! j) s = Inr False))"
    proof
      assume "\<exists>i < length (p # ps). rx ((p # ps) ! i) s = Inr True \<and> (\<forall>j < i. rx ((p # ps) ! j) s = Inr False)"
      then obtain i where i: "i < length (p # ps)" "rx ((p # ps) ! i) s = Inr True"
        "\<forall>j < i. rx ((p # ps) ! j) s = Inr False" by blast
      show False
      proof (cases i)
        case 0
        with i Inl show False by simp
      next
        case (Suc k)
        with i(3) have "rx ((p # ps) ! 0) s = Inr False" by blast
        with Inl show False by simp
      qed
    qed
    with Inl show ?thesis by simp
  next
    case (Inr b)
    show ?thesis
    proof (cases b)
      case True
      with Inr have "rx ((p # ps) ! 0) s = Inr True \<and> (\<forall>j < 0. rx ((p # ps) ! j) s = Inr False)"
        by simp
      then have "\<exists>i < length (p # ps). rx ((p # ps) ! i) s = Inr True \<and> (\<forall>j < i. rx ((p # ps) ! j) s = Inr False)"
        by (metis length_greater_0_conv list.distinct(1))
      with Inr True show ?thesis by simp
    next
      case False
      have "(\<exists>i < length (p # ps). rx ((p # ps) ! i) s = Inr True \<and> (\<forall>j < i. rx ((p # ps) ! j) s = Inr False))
        \<longleftrightarrow> (\<exists>i < length ps. rx (ps ! i) s = Inr True \<and> (\<forall>j < i. rx (ps ! j) s = Inr False))"
        (is "?L \<longleftrightarrow> ?R")
      proof
        assume ?L
        then obtain i where i: "i < length (p # ps)" "rx ((p # ps) ! i) s = Inr True"
          "\<forall>j < i. rx ((p # ps) ! j) s = Inr False" by blast
        from i(2) Inr False obtain k where k: "i = Suc k" by (cases i) auto
        with i have "k < length ps" "rx (ps ! k) s = Inr True" by simp_all
        moreover have "\<forall>j < k. rx (ps ! j) s = Inr False"
        proof (intro allI impI)
          fix j assume "j < k"
          then have "Suc j < i" using k by simp
          with i(3) have "rx ((p # ps) ! Suc j) s = Inr False" by blast
          then show "rx (ps ! j) s = Inr False" by simp
        qed
        ultimately show ?R by blast
      next
        assume ?R
        then obtain i where i: "i < length ps" "rx (ps ! i) s = Inr True"
          "\<forall>j < i. rx (ps ! j) s = Inr False" by blast
        have "\<forall>j < Suc i. rx ((p # ps) ! j) s = Inr False"
        proof (intro allI impI)
          fix j assume j: "j < Suc i"
          show "rx ((p # ps) ! j) s = Inr False"
          proof (cases j)
            case 0
            with Inr False show ?thesis by simp
          next
            case (Suc m)
            with j i(3) show ?thesis by simp
          qed
        qed
        with i(1,2) have "Suc i < length (p # ps) \<and> rx ((p # ps) ! Suc i) s = Inr True
          \<and> (\<forall>j < Suc i. rx ((p # ps) ! j) s = Inr False)" by simp
        then show ?L by blast
      qed
      with Inr False Cons.IH show ?thesis by simp
    qed
  qed
qed

subsection \<open>Claim C1: tasks rejected by local validation\<close>

text \<open>
  What the code does when \<open>validateFile\<close> returns a message. When the file is larger
  than \<open>maxFileSize\<close> megabytes, or the list of accepted types does not begin with \<open>*\<close>
  and every pattern of it compiles and does not match the file's MIME type,
  \<open>uploadFile\<close> returns before its \<open>await\<close> with the task in status \<open>error\<close> and the
  message of the rule that failed, \<open>File exceeds NMB limit\<close> or \<open>File type not accepted\<close>.
  The state is untouched: no \<open>fetch\<close> call is made and the task is never \<open>uploading\<close>.
\<close>

lemma uploadFile_local_rejection:
  assumes "file_size (task_file t) > maxFileSize cfg * 1024 * 1024
           \<or> (\<not> first_is_star (acceptedTypes cfg)
               \<and> (\<forall>p \<in> set (acceptedTypes cfg). rx p (file_type (task_file t)) = Inr False))"
    and "msg = (if file_size (task_file t) > maxFileSize cfg * 1024 * 1024
                then ''File exceeds '' @ show_nat (maxFileSize cfg) @ ''MB limit''
                else ''File type not accepted'')"
  shows "uploadFile_begin rx cfg t st = (Settled (t\<lparr>status := Error, errorMessage := Some msg\<rparr>), st)
     \<and> uploadFile rx cfg t n out st = (Inr (t\<lparr>status := Error, errorMessage := Some msg\<rparr>), st)
     \<and> fetch_calls (snd (uploadFile rx cfg t n out st)) = fetch_calls st"
proof -
  have v: "validateFile rx cfg (task_file t) = Inr (Some msg)"
  proof (cases "file_size (task_file t) > maxFileSize cfg * 1024 * 1024")
    case True
    then show ?thesis by (simp add: validateFile_def assms(2))
  next
    case False
    with assms(1) have "\<not> first_is_star (acceptedTypes cfg)"
      and "some_match rx (acceptedTypes cfg) (file_type (task_file t)) = Inr False"
      by (simp_all add: some_match_False)
    with False show ?thesis by (simp add: validateFile_def assms(2))
  qed
  then have b: "uploadFile_begin rx cfg t st
      = (Settled (t\<lparr>status := Error, errorMessage := Some msg\<rparr>), st)"
    by (simp add: uploadFile_begin_def)
  then show ?thesis by (simp add: uploadFile_def)
qed

text \<open>
  A file of 15 MB under the default limit of 10, added with \<open>addFiles\<close> and then
  uploaded alone and through \<open>handleUpload\<close>, and a text file when only images are
  accepted.
\<close>

lemma uploadFile_local_rejection_example:
  "files (addFiles (Some [(\<lparr>file_name = ''video.mp4'', file_size = 15728640, file_type = ''video/mp4''\<rparr>,
        1700000000000, ''0.4fzyo82mvyr'')]) initial_client)
     = [example_task ''video.mp4'' 15728640 ''video/mp4'']
   \<and> file_size (task_file (example_task ''video.mp4'' 15728640 ''video/mp4''))
       > maxFileSize default_props * 1024 * 1024
   \<and> uploadFile simple_engine default_props (example_task ''video.mp4'' 15728640 ''video/mp4'') 3
        (Responded \<lparr>resp_status = 200, statusText = ''OK''\<rparr>)
        (addFiles (Some [(\<lparr>file_name = ''video.mp4'', file_size = 15728640, file_type = ''video/mp4''\<rparr>,
           1700000000000, ''0.4fzyo82mvyr'')]) initial_client)
      = (Inr ((example_task ''video.mp4'' 15728640 ''video/mp4'')
               \<lparr>status := Error, errorMessage := Some ''File exceeds 10MB limit''\<rparr>),
         addFiles (Some [(\<lparr>file_name = ''video.mp4'', file_size = 15728640, file_type = ''video/mp4''\<rparr>,
           1700000000000, ''0.4fzyo82mvyr'')]) initial_client)
   \<and> outcome (handleUpload simple_engine default_props
        (addFiles (Some [(\<lparr>file_name = ''video.mp4'', file_size = 15728640, file_type = ''video/mp4''\<rparr>,
           1700000000000, ''0.4fzyo82mvyr'')]) initial_client))
      = Some (Completed [(example_task ''video.mp4'' 15728640 ''video/mp4'')
               \<lparr>status := Error, errorMessage := Some ''File exceeds 10MB limit''\<rparr>])
   \<and> fetch_calls (client_state (handleUpload simple_engine default_props
        (addFiles (Some [(\<lparr>file_name = ''video.mp4'', file_size = 15728640, file_type = ''video/mp4''\<rparr>,
           1700000000000, ''0.4fzyo82mvyr'')]) initial_client))) = []
   \<and> \<not> first_is_star (acceptedTypes (default_props\<lparr>acceptedTypes := [''image/'']\<rparr>))
   \<and> simple_engine ''image/'' ''text/plain'' = Inr False
   \<and> uploadFile simple_engine (default_props\<lparr>acceptedTypes := [''image/'']\<rparr>)
        (example_task ''notes.txt'' 5 ''text/plain'') 3
        (Responded \<lparr>resp_status = 200, statusText = ''OK''\<rparr>) initial_client
      = (Inr ((example_task ''notes.txt'' 5 ''text/plain'')
               \<lparr>status := Error, errorMessage := Some ''File type not accepted''\<rparr>),
         initial_client)"
proof -
  let ?f = "\<lparr>file_name = ''video.mp4'', file_size = 15728640, file_type = ''video/mp4''\<rparr>"
  let ?st = "addFiles (Some [(?f, 1700000000000, ''0.4fzyo82mvyr'')]) initial_client"
  let ?t = "example_task ''video.mp4'' 15728640 ''video/mp4''"
  let ?r = "Responded \<lparr>resp_status = 200, statusText = ''OK''\<rparr>"
  let ?cfg = "default_props\<lparr>acceptedTypes := [''image/'']\<rparr>"
  let ?t2 = "example_task ''notes.txt'' 5 ''text/plain''"
  have a: "files ?st = [?t]"
    by (simp add: addFiles_def initial_client_def example_task_def)
  have h: "file_size (task_file ?t) > maxFileSize default_props * 1024 * 1024"
    by (simp add: example_task_eq default_props_def)
  have m: "''File exceeds 10MB limit''
      = (if file_size (task_file ?t) > maxFileSize default_props * 1024 * 1024
         then ''File exceeds '' @ show_nat (maxFileSize default_props) @ ''MB limit''
         else ''File type not accepted'')"
    by (simp add: example_task_eq default_props_def show_nat.simps digit_char_def)
  from uploadFile_local_rejection [where t = ?t and cfg = default_props and rx = simple_engine
      and msg = "''File exceeds 10MB limit''" and st = ?st and n = 3 and out = ?r]
    h m
  have u: "uploadFile_begin simple_engine default_props ?t ?st
        = (Settled (?t\<lparr>status := Error, errorMessage := Some ''File exceeds 10MB limit''\<rparr>), ?st)"
    and u': "uploadFile simple_engine default_props ?t 3 ?r ?st
        = (Inr (?t\<lparr>status := Error, errorMessage := Some ''File exceeds 10MB limit''\<rparr>), ?st)"
    by blast+
  have p: "filter (\<lambda>f. status f = Pending) (files ?st) = [?t]"
    by (simp add: a) (simp add: example_task_eq)
  have hu: "handleUpload simple_engine default_props ?st
      = advance default_props
          \<lparr>client_state = snd (uploadFile_begin simple_engine default_props ?t (?st\<lparr>isUploading := True\<rparr>)),
           calls = [fst (uploadFile_begin simple_engine default_props ?t (?st\<lparr>isUploading := True\<rparr>))],
           outcome = None\<rparr>"
    by (simp add: handleUpload_def p Let_def split: prod.splits)
  from uploadFile_local_rejection [where t = ?t and cfg = default_props and rx = simple_engine
      and msg = "''File exceeds 10MB limit''" and st = "?st\<lparr>isUploading := True\<rparr>"
      and n = 3 and out = ?r] h m
  have ub: "uploadFile_begin simple_engine default_props ?t (?st\<lparr>isUploading := True\<rparr>)
        = (Settled (?t\<lparr>status := Error, errorMessage := Some ''File exceeds 10MB limit''\<rparr>),
           ?st\<lparr>isUploading := True\<rparr>)"
    by blast
  have o: "outcome (handleUpload simple_engine default_props ?st)
      = Some (Completed [?t\<lparr>status := Error, errorMessage := Some ''File exceeds 10MB limit''\<rparr>])"
    by (simp add: hu ub advance_def promise_all_def)
  have fc: "fetch_calls (client_state (handleUpload simple_engine default_props ?st)) = []"
    by (simp add: hu ub advance_def promise_all_def handleUpload_finish_def)
      (simp add: addFiles_def initial_client_def)
  have s2: "\<not> first_is_star (acceptedTypes ?cfg)" by (simp add: first_is_star_def)
  have m2: "simple_engine ''image/'' ''text/plain'' = Inr False"
    by (simp add: simple_engine_def)
  then have b2: "\<forall>p \<in> set (acceptedTypes ?cfg). simple_engine p (file_type (task_file ?t2)) = Inr False"
    by (simp add: example_task_eq)
  have msg2: "''File type not accepted''
      = (if file_size (task_file ?t2) > maxFileSize ?cfg * 1024 * 1024
         then ''File exceeds '' @ show_nat (maxFileSize ?cfg) @ ''MB limit''
         else ''File type not accepted'')"
    by (simp add: example_task_eq default_props_def)
  from uploadFile_local_rejection [where t = ?t2 and cfg = ?cfg and rx = simple_engine
      and msg = "''File type not accepted''" and st = initial_client and n = 3 and out = ?r]
    s2 b2 msg2
  have u2: "uploadFile simple_engine ?cfg ?t2 3 ?r initial_client
        = (Inr (?t2\<lparr>status := Error, errorMessage := Some ''File type not accepted''\<rparr>), initial_client)"
    by blast
  from a h u' o fc s2 m2 u2 show ?thesis by blast
qed

text \<open>
  C1 says that every file whose MIME type the configured filter does not accept ends
  in status \<open>error\<close> with a message naming the rule. Let the accepted types be
  \<open>image/png\<close> and \<open>*\<close>, and the file a text file. The first pattern does not match and
  the second does not compile, so \<open>match\<close> throws a \<open>SyntaxError\<close> inside \<open>validateFile\<close>,
  which \<open>uploadFile\<close> calls before its \<open>try\<close>. The promise of \<open>uploadFile\<close> rejects with
  that error: there is no result, no status \<open>error\<close> and no message. No \<open>fetch\<close> call
  is made and the state is as before.
\<close>

theorem C1_filter_throws:
  "\<not> first_is_star (acceptedTypes (default_props\<lparr>acceptedTypes := [''image/png'', ''*'']\<rparr>))
   \<and> file_size (task_file (example_task ''notes.txt'' 5 ''text/plain''))
       \<le> maxFileSize (default_props\<lparr>acceptedTypes := [''image/png'', ''*'']\<rparr>) * 1024 * 1024
   \<and> simple_engine ''image/png'' ''text/plain'' = Inr False
   \<and> simple_engine ''*'' ''text/plain''
       = Inl (ErrorObj ''Invalid regular expression: /*/: Nothing to repeat'')
   \<and> validateFile simple_engine (default_props\<lparr>acceptedTypes := [''image/png'', ''*'']\<rparr>)
         (task_file (example_task ''notes.txt'' 5 ''text/plain''))
       = Inl (ErrorObj ''Invalid regular expression: /*/: Nothing to repeat'')
   \<and> uploadFile simple_engine (default_props\<lparr>acceptedTypes := [''image/png'', ''*'']\<rparr>)
         (example_task ''notes.txt'' 5 ''text/plain'') 0
         (Responded \<lparr>resp_status = 200, statusText = ''OK''\<rparr>) initial_client
       = (Inl (ErrorObj ''Invalid regular expression: /*/: Nothing to repeat''), initial_client)"
proof -
  let ?cfg = "default_props\<lparr>acceptedTypes := [''image/png'', ''*'']\<rparr>"
  let ?t = "example_task ''notes.txt'' 5 ''text/plain''"
  let ?e = "ErrorObj ''Invalid regular expression: /*/: Nothing to repeat''"
  have a: "\<not> first_is_star (acceptedTypes ?cfg)" by (simp add: first_is_star_def)
  have b: "file_size (task_file ?t) \<le> maxFileSize ?cfg * 1024 * 1024"
    by (simp add: example_task_eq default_props_def)
  have m1: "simple_engine ''image/png'' ''text/plain'' = Inr False"
    by (simp add: simple_engine_def)
  have m2: "simple_engine ''*'' ''text/plain'' = Inl ?e"
    by (simp add: simple_engine_def)
  have v: "validateFile simple_engine ?cfg (task_file ?t) = Inl ?e"
    using a b by (simp add: validateFile_def example_task_eq m1 m2)
  have u: "uploadFile simple_engine ?cfg ?t 0 (Responded \<lparr>resp_status = 200, statusText = ''OK''\<rparr>)
      initial_client = (Inl ?e, initial_client)"
    by (simp add: uploadFile_def uploadFile_begin_def v)
  from a b m1 m2 v u show ?thesis by blast
qed

subsection \<open>Claim C4: a successful response\<close>

text \<open>
  C4. For a task that \<open>validateFile\<close> accepts and a response with a status from 200 to
  299, \<open>uploadFile\<close> returns the task with status \<open>success\<close> and progress 100, however
  often the interval fired in between, and it has made exactly one \<open>fetch\<close> call, to the
  configured endpoint with the task's file.
\<close>

theorem C4_success:
  assumes "validateFile rx cfg (task_file t) = Inr None"
    and "200 \<le> resp_status r" and "resp_status r \<le> 299"
  shows "fst (uploadFile rx cfg t n (Responded r) st) = Inr (t\<lparr>status := Success, progress := 100\<rparr>)
     \<and> fetch_calls (snd (uploadFile rx cfg t n (Responded r) st))
         = fetch_calls st @ [(endpoint cfg, task_file t)]"
proof -
  have fire_fetch: "fetch_calls (fire h s) = fetch_calls s" for h s
    by (simp add: fire_def interval_tick_def split: option.splits)
  have pow_fetch: "fetch_calls ((fire h ^^ k) s) = fetch_calls s" for h k s
    by (induction k) (simp_all add: fire_fetch)
  from assms show ?thesis
    by (simp add: uploadFile_def uploadFile_begin_def uploadFile_resume_def ok_def Let_def
        clearInterval_def pow_fetch)
qed

text \<open>C4 at a PNG of 5 MB under the default properties and a response \<open>200 OK\<close>.\<close>

theorem C4_success_witness:
  "validateFile simple_engine default_props (task_file (example_task ''photo.png'' 5242880 ''image/png''))
     = Inr None
   \<and> (200::nat) \<le> resp_status \<lparr>resp_status = 200, statusText = ''OK''\<rparr>
   \<and> resp_status \<lparr>resp_status = 200, statusText = ''OK''\<rparr> \<le> (299::nat)
   \<and> fst (uploadFile simple_engine default_props (example_task ''photo.png'' 5242880 ''image/png'') 2
        (Responded \<lparr>resp_status = 200, statusText = ''OK''\<rparr>) initial_client)
      = Inr ((example_task ''photo.png'' 5242880 ''image/png'')\<lparr>status := Success, progress := 100\<rparr>)
   \<and> fetch_calls (snd (uploadFile simple_engine default_props
        (example_task ''photo.png'' 5242880 ''image/png'') 2
        (Responded \<lparr>resp_status = 200, statusText = ''OK''\<rparr>) initial_client))
      = [(''/api/upload'', \<lparr>file_name = ''photo.png'', file_size = 5242880, file_type = ''image/png''\<rparr>)]"
proof -
  let ?t = "example_task ''photo.png'' 5242880 ''image/png''"
  let ?r = "\<lparr>resp_status = 200, statusText = ''OK''\<rparr>"
  have v: "validateFile simple_engine default_props (task_file ?t) = Inr None"
    by (simp add: example_task_eq validateFile_def default_props_def first_is_star_def)
  have a: "(200::nat) \<le> resp_status ?r" by simp
  have b: "resp_status ?r \<le> (299::nat)" by simp
  note c = C4_success [OF v a b, of 2 initial_client]
  from c have r1: "fst (uploadFile simple_engine default_props ?t 2 (Responded ?r) initial_client)
      = Inr (?t\<lparr>status := Success, progress := 100\<rparr>)" by blast
  from c have "fetch_calls (snd (uploadFile simple_engine default_props ?t 2 (Responded ?r) initial_client))
      = fetch_calls initial_client @ [(endpoint default_props, task_file ?t)]" by blast
  then have r2: "fetch_calls (snd (uploadFile simple_engine default_props ?t 2 (Responded ?r) initial_client))
      = [(''/api/upload'', \<lparr>file_name = ''photo.png'', file_size = 5242880, file_type = ''image/png''\<rparr>)]"
    by (simp add: initial_client_def default_props_def example_task_eq)
  from v a b r1 r2 show ?thesis by blast
qed

subsection \<open>Claim C5: a failed request\<close>

text \<open>
  C5, as the code has it. For a task that \<open>validateFile\<close> accepts, when \<open>fetch\<close> rejects
  or the response has a status outside 200 to 299, \<open>uploadFile\<close> returns the task with
  status \<open>error\<close>, progress 0 and a message: \<open>Upload failed: \<close> followed by the
  response's status text, or the message of the \<open>Error\<close> that was thrown, or
  \<open>Upload failed\<close> for a thrown value that is no \<open>Error\<close>. The message is empty exactly
  when the \<open>Error\<close> thrown has an empty message.
\<close>

theorem C5_failure:
  assumes "validateFile rx cfg (task_file t) = Inr None"
    and "out = Rejected e \<or> (out = Responded r \<and> (resp_status r < 200 \<or> 299 < resp_status r))"
    and "msg = (case out of
                  Responded r' \<Rightarrow> ''Upload failed: '' @ statusText r'
                | Rejected (ErrorObj m) \<Rightarrow> m
                | Rejected NonError \<Rightarrow> ''Upload failed'')"
  shows "fst (uploadFile rx cfg t n out st)
           = Inr (t\<lparr>status := Error, errorMessage := Some msg, progress := 0\<rparr>)
     \<and> (msg = [] \<longleftrightarrow> out = Rejected (ErrorObj []))"
proof -
  from assms(2) show ?thesis
  proof
    assume o: "out = Rejected e"
    show ?thesis
      using assms(1) by (cases e)
        (simp_all add: o assms(3) uploadFile_def uploadFile_begin_def uploadFile_resume_def
          Let_def catch_message_def)
  next
    assume o: "out = Responded r \<and> (resp_status r < 200 \<or> 299 < resp_status r)"
    then have "\<not> ok r" by (auto simp: ok_def)
    with o assms(1) show ?thesis
      by (simp add: assms(3) uploadFile_def uploadFile_begin_def uploadFile_resume_def
          Let_def catch_message_def)
  qed
qed

text \<open>C5 at a response \<open>500 Internal Server Error\<close> and at a rejected \<open>fetch\<close>.\<close>

theorem C5_failure_witness:
  "validateFile simple_engine default_props (task_file (example_task ''photo.png'' 5242880 ''image/png''))
     = Inr None
   \<and> 299 < resp_status \<lparr>resp_status = 500, statusText = ''Internal Server Error''\<rparr>
   \<and> fst (uploadFile simple_engine default_props (example_task ''photo.png'' 5242880 ''image/png'') 2
        (Responded \<lparr>resp_status = 500, statusText = ''Internal Server Error''\<rparr>) initial_client)
      = Inr ((example_task ''photo.png'' 5242880 ''image/png'')
          \<lparr>status := Error, errorMessage := Some ''Upload failed: Internal Server Error'',
            progress := 0\<rparr>)
   \<and> fst (uploadFile simple_engine default_props (example_task ''photo.png'' 5242880 ''image/png'') 2
        (Rejected (ErrorObj ''Failed to fetch'')) initial_client)
      = Inr ((example_task ''photo.png'' 5242880 ''image/png'')
          \<lparr>status := Error, errorMessage := Some ''Failed to fetch'', progress := 0\<rparr>)"
proof -
  let ?t = "example_task ''photo.png'' 5242880 ''image/png''"
  let ?r = "\<lparr>resp_status = 500, statusText = ''Internal Server Error''\<rparr>"
  have v: "validateFile simple_engine default_props (task_file ?t) = Inr None"
    by (simp add: example_task_eq validateFile_def default_props_def first_is_star_def)
  have a: "299 < resp_status ?r" by simp
  then have o1: "Responded ?r = Rejected NonError
      \<or> (Responded ?r = Responded ?r \<and> (resp_status ?r < 200 \<or> 299 < resp_status ?r))"
    by simp
  have m1: "''Upload failed: Internal Server Error''
      = (case Responded ?r of
           Responded r' \<Rightarrow> ''Upload failed: '' @ statusText r'
         | Rejected (ErrorObj m) \<Rightarrow> m
         | Rejected NonError \<Rightarrow> ''Upload failed'')"
    by simp
  from C5_failure [OF v o1 m1, of 2 initial_client]
  have r1: "fst (uploadFile simple_engine default_props ?t 2 (Responded ?r) initial_client)
      = Inr (?t\<lparr>status := Error, errorMessage := Some ''Upload failed: Internal Server Error'',
            progress := 0\<rparr>)" by blast
  have o2: "Rejected (ErrorObj ''Failed to fetch'') = Rejected (ErrorObj ''Failed to fetch'')
      \<or> (Rejected (ErrorObj ''Failed to fetch'') = Responded ?r
          \<and> (resp_status ?r < 200 \<or> 299 < resp_status ?r))"
    by simp
  have m2: "''Failed to fetch''
      = (case Rejected (ErrorObj ''Failed to fetch'') of
           Responded r' \<Rightarrow> ''Upload failed: '' @ statusText r'
         | Rejected (ErrorObj m) \<Rightarrow> m
         | Rejected NonError \<Rightarrow> ''Upload failed'')"
    by simp
  from C5_failure [OF v o2 m2, of 2 initial_client]
  have r2: "fst (uploadFile simple_engine default_props ?t 2 (Rejected (ErrorObj ''Failed to fetch'')) initial_client)
      = Inr (?t\<lparr>status := Error, errorMessage := Some ''Failed to fetch'', progress := 0\<rparr>)"
    by blast
  from v a r1 r2 show ?thesis by blast
qed

text \<open>
  C5 as stated promises a non-empty message. The \<open>catch\<close> block passes the message of
  the \<open>Error\<close> on as it is, so a rejection with \<open>new Error('')\<close> gives the task an empty
  \<open>errorMessage\<close>.
\<close>

theorem C5_empty_message_counterexample:
  "validateFile simple_engine default_props (task_file (example_task ''a.txt'' 5 ''text/plain'')) = Inr None
   \<and> fst (uploadFile simple_engine default_props (example_task ''a.txt'' 5 ''text/plain'') 0
          (Rejected (ErrorObj [])) initial_client)
       = Inr ((example_task ''a.txt'' 5 ''text/plain'')
               \<lparr>status := Error, errorMessage := Some [], progress := 0\<rparr>)"
  by (simp add: example_task_eq validateFile_def default_props_def first_is_star_def
      uploadFile_def uploadFile_begin_def uploadFile_resume_def Let_def catch_message_def)

subsection \<open>Claim C9: removing a task\<close>

text \<open>
  C9, as the code has it. \<open>removeFile\<close> with an id that no task in the list carries
  leaves the whole state as it is. In every case it changes nothing but the list, and
  the list afterwards is the list before with every task that carries the id taken out:
  it is a subsequence of the old list, so the tasks that stay are unchanged and in their
  order; no task with the id stays; every task with another id stays, as often as it
  was there; and the list is shorter by the number of tasks that carried the id. When
  exactly one task carries the id, that is the one task erased.
\<close>

theorem C9_remove:
  "(tid \<notin> set (map task_id (files st)) \<longrightarrow> removeFile tid st = st)
   \<and> removeFile tid st = st\<lparr>files := files (removeFile tid st)\<rparr>
   \<and> subseq (files (removeFile tid st)) (files st)
   \<and> tid \<notin> set (map task_id (files (removeFile tid st)))
   \<and> (\<forall>u. task_id u \<noteq> tid \<longrightarrow>
          count_list (files (removeFile tid st)) u = count_list (files st) u)
   \<and> length (files (removeFile tid st))
       = length (files st) - length (filter (\<lambda>f. task_id f = tid) (files st))
   \<and> (files st = before @ t # after \<and> task_id t = tid
        \<and> tid \<notin> set (map task_id before) \<and> tid \<notin> set (map task_id after) \<longrightarrow>
        removeFile tid st = st\<lparr>files := before @ after\<rparr>)"
proof -
  have keep: "tid \<notin> set (map task_id xs) \<Longrightarrow> filter (\<lambda>f. task_id f \<noteq> tid) xs = xs" for xs
    by (induction xs) auto
  have a: "tid \<notin> set (map task_id (files st)) \<longrightarrow> removeFile tid st = st"
    using keep [of "files st"] by (simp add: removeFile_def)
  have b: "removeFile tid st = st\<lparr>files := files (removeFile tid st)\<rparr>"
    by (simp add: removeFile_def)
  have c: "subseq (files (removeFile tid st)) (files st)"
    by (simp add: removeFile_def)
  have d: "tid \<notin> set (map task_id (files (removeFile tid st)))"
    by (auto simp: removeFile_def)
  have cnt: "count_list (filter (\<lambda>f. task_id f \<noteq> tid) xs) u = count_list xs u"
    if "task_id u \<noteq> tid" for xs u
    using that by (induction xs) auto
  have e: "\<forall>u. task_id u \<noteq> tid \<longrightarrow>
          count_list (files (removeFile tid st)) u = count_list (files st) u"
    by (simp add: removeFile_def cnt)
  have "length (filter (\<lambda>f. task_id f = tid) (files st))
      + length (filter (\<lambda>f. task_id f \<noteq> tid) (files st)) = length (files st)"
    by (rule sum_length_filter_compl)
  then have f: "length (files (removeFile tid st))
       = length (files st) - length (filter (\<lambda>f. task_id f = tid) (files st))"
    by (simp add: removeFile_def)
  have g: "files st = before @ t # after \<and> task_id t = tid
        \<and> tid \<notin> set (map task_id before) \<and> tid \<notin> set (map task_id after) \<longrightarrow>
        removeFile tid st = st\<lparr>files := before @ after\<rparr>"
    using keep [of before] keep [of after] by (simp add: removeFile_def)
  from a b c d e f g show ?thesis by blast
qed

text \<open>C9 at a list of three tasks: an unknown id, then the id of the middle task.\<close>

theorem C9_remove_witness:
  "''zzz'' \<notin> set (map task_id (files (addFiles (Some
        [(\<lparr>file_name = ''a'', file_size = 10, file_type = ''text/plain''\<rparr>, 1700000000001, ''0.a1''),
         (\<lparr>file_name = ''b'', file_size = 20, file_type = ''text/plain''\<rparr>, 1700000000002, ''0.b2''),
         (\<lparr>file_name = ''c'', file_size = 30, file_type = ''text/plain''\<rparr>, 1700000000003, ''0.c3'')])
        initial_client)))
   \<and> removeFile ''zzz'' (addFiles (Some
        [(\<lparr>file_name = ''a'', file_size = 10, file_type = ''text/plain''\<rparr>, 1700000000001, ''0.a1''),
         (\<lparr>file_name = ''b'', file_size = 20, file_type = ''text/plain''\<rparr>, 1700000000002, ''0.b2''),
         (\<lparr>file_name = ''c'', file_size = 30, file_type = ''text/plain''\<rparr>, 1700000000003, ''0.c3'')])
        initial_client)
      = addFiles (Some
        [(\<lparr>file_name = ''a'', file_size = 10, file_type = ''text/plain''\<rparr>, 1700000000001, ''0.a1''),
         (\<lparr>file_name = ''b'', file_size = 20, file_type = ''text/plain''\<rparr>, 1700000000002, ''0.b2''),
         (\<lparr>file_name = ''c'', file_size = 30, file_type = ''text/plain''\<rparr>, 1700000000003, ''0.c3'')])
        initial_client
   \<and> map task_id (files (addFiles (Some
        [(\<lparr>file_name = ''a'', file_size = 10, file_type = ''text/plain''\<rparr>, 1700000000001, ''0.a1''),
         (\<lparr>file_name = ''b'', file_size = 20, file_type = ''text/plain''\<rparr>, 1700000000002, ''0.b2''),
         (\<lparr>file_name = ''c'', file_size = 30, file_type = ''text/plain''\<rparr>, 1700000000003, ''0.c3'')])
        initial_client)) = [''a-1700000000001-a1'', ''b-1700000000002-b2'', ''c-1700000000003-c3'']
   \<and> removeFile ''b-1700000000002-b2'' (addFiles (Some
        [(\<lparr>file_name = ''a'', file_size = 10, file_type = ''text/plain''\<rparr>, 1700000000001, ''0.a1''),
         (\<lparr>file_name = ''b'', file_size = 20, file_type = ''text/plain''\<rparr>, 1700000000002, ''0.b2''),
         (\<lparr>file_name = ''c'', file_size = 30, file_type = ''text/plain''\<rparr>, 1700000000003, ''0.c3'')])
        initial_client)
      = addFiles (Some
        [(\<lparr>file_name = ''a'', file_size = 10, file_type = ''text/plain''\<rparr>, 1700000000001, ''0.a1''),
         (\<lparr>file_name = ''c'', file_size = 30, file_type = ''text/plain''\<rparr>, 1700000000003, ''0.c3'')])
        initial_client
   \<and> count_list (files (removeFile ''b-1700000000002-b2'' (addFiles (Some
        [(\<lparr>file_name = ''a'', file_size = 10, file_type = ''text/plain''\<rparr>, 1700000000001, ''0.a1''),
         (\<lparr>file_name = ''b'', file_size = 20, file_type = ''text/plain''\<rparr>, 1700000000002, ''0.b2''),
         (\<lparr>file_name = ''c'', file_size = 30, file_type = ''text/plain''\<rparr>, 1700000000003, ''0.c3'')])
        initial_client)))
        (new_task (\<lparr>file_name = ''c'', file_size = 30, file_type = ''text/plain''\<rparr>,
           1700000000003, ''0.c3''))
      = count_list (files (addFiles (Some
        [(\<lparr>file_name = ''a'', file_size = 10, file_type = ''text/plain''\<rparr>, 1700000000001, ''0.a1''),
         (\<lparr>file_name = ''b'', file_size = 20, file_type = ''text/plain''\<rparr>, 1700000000002, ''0.b2''),
         (\<lparr>file_name = ''c'', file_size = 30, file_type = ''text/plain''\<rparr>, 1700000000003, ''0.c3'')])
        initial_client))
        (new_task (\<lparr>file_name = ''c'', file_size = 30, file_type = ''text/plain''\<rparr>,
           1700000000003, ''0.c3''))"
proof -
  let ?a = "(\<lparr>file_name = ''a'', file_size = 10, file_type = ''text/plain''\<rparr>, 1700000000001::nat, ''0.a1'')"
  let ?b = "(\<lparr>file_name = ''b'', file_size = 20, file_type = ''text/plain''\<rparr>, 1700000000002::nat, ''0.b2'')"
  let ?c = "(\<lparr>file_name = ''c'', file_size = 30, file_type = ''text/plain''\<rparr>, 1700000000003::nat, ''0.c3'')"
  let ?st = "addFiles (Some [?a, ?b, ?c]) initial_client"
  have ia: "task_id (new_task ?a) = ''a-1700000000001-a1''"
    by (simp add: new_task_def show_nat.simps digit_char_def)
  have ib: "task_id (new_task ?b) = ''b-1700000000002-b2''"
    by (simp add: new_task_def show_nat.simps digit_char_def)
  have ic: "task_id (new_task ?c) = ''c-1700000000003-c3''"
    by (simp add: new_task_def show_nat.simps digit_char_def)
  have f: "files ?st = [new_task ?a] @ new_task ?b # [new_task ?c]"
    by (simp add: addFiles_def initial_client_def)
  have ids: "map task_id (files ?st) = [''a-1700000000001-a1'', ''b-1700000000002-b2'', ''c-1700000000003-c3'']"
    by (simp add: f ia ib ic)
  have h1: "''zzz'' \<notin> set (map task_id (files ?st))"
    by (simp add: ids)
  have h2: "''b-1700000000002-b2'' \<notin> set (map task_id [new_task ?a])" by (simp add: ia)
  have h3: "''b-1700000000002-b2'' \<notin> set (map task_id [new_task ?c])" by (simp add: ic)
  have h4: "task_id (new_task ?c) \<noteq> ''b-1700000000002-b2''" by (simp add: ic)
  from C9_remove [where tid = "''zzz''" and st = ?st] h1
  have r1: "removeFile ''zzz'' ?st = ?st" by blast
  note t = C9_remove [where tid = "''b-1700000000002-b2''" and st = ?st
      and before = "[new_task ?a]" and t = "new_task ?b" and after = "[new_task ?c]"]
  from t f ib h2 h3
  have "removeFile ''b-1700000000002-b2'' ?st = ?st\<lparr>files := [new_task ?a] @ [new_task ?c]\<rparr>"
    by blast
  then have r2: "removeFile ''b-1700000000002-b2'' ?st = addFiles (Some [?a, ?c]) initial_client"
    by (simp add: addFiles_def initial_client_def)
  from t h4 have r3: "count_list (files (removeFile ''b-1700000000002-b2'' ?st)) (new_task ?c)
      = count_list (files ?st) (new_task ?c)" by blast
  from h1 r1 ids r2 r3 show ?thesis by blast
qed

text \<open>
  C9 as stated has exactly the task with the id erased. Ids are built from the name, the
  time and a random number and need not differ: two files called \<open>a.txt\<close>, added in the
  same millisecond with the same random number, make two tasks with one id, and
  \<open>removeFile\<close> with that id erases both. The third task stays.
\<close>

theorem C9_shared_id_counterexample:
  "map task_id (files (addFiles (Some
        [(\<lparr>file_name = ''a.txt'', file_size = 5, file_type = ''text/plain''\<rparr>, 1700000000000, ''0.i''),
         (\<lparr>file_name = ''a.txt'', file_size = 7, file_type = ''text/plain''\<rparr>, 1700000000000, ''0.i''),
         (\<lparr>file_name = ''b.txt'', file_size = 9, file_type = ''text/plain''\<rparr>, 1700000000000, ''0.k'')])
        initial_client))
     = [''a.txt-1700000000000-i'', ''a.txt-1700000000000-i'', ''b.txt-1700000000000-k'']
   \<and> map (\<lambda>f. file_size (task_file f)) (files (addFiles (Some
        [(\<lparr>file_name = ''a.txt'', file_size = 5, file_type = ''text/plain''\<rparr>, 1700000000000, ''0.i''),
         (\<lparr>file_name = ''a.txt'', file_size = 7, file_type = ''text/plain''\<rparr>, 1700000000000, ''0.i''),
         (\<lparr>file_name = ''b.txt'', file_size = 9, file_type = ''text/plain''\<rparr>, 1700000000000, ''0.k'')])
        initial_client))
     = [5, 7, 9]
   \<and> removeFile ''a.txt-1700000000000-i'' (addFiles (Some
        [(\<lparr>file_name = ''a.txt'', file_size = 5, file_type = ''text/plain''\<rparr>, 1700000000000, ''0.i''),
         (\<lparr>file_name = ''a.txt'', file_size = 7, file_type = ''text/plain''\<rparr>, 1700000000000, ''0.i''),
         (\<lparr>file_name = ''b.txt'', file_size = 9, file_type = ''text/plain''\<rparr>, 1700000000000, ''0.k'')])
        initial_client)
     = addFiles (Some
        [(\<lparr>file_name = ''b.txt'', file_size = 9, file_type = ''text/plain''\<rparr>, 1700000000000, ''0.k'')])
        initial_client"
proof -
  let ?a = "(\<lparr>file_name = ''a.txt'', file_size = 5, file_type = ''text/plain''\<rparr>, 1700000000000::nat, ''0.i'')"
  let ?b = "(\<lparr>file_name = ''a.txt'', file_size = 7, file_type = ''text/plain''\<rparr>, 1700000000000::nat, ''0.i'')"
  let ?c = "(\<lparr>file_name = ''b.txt'', file_size = 9, file_type = ''text/plain''\<rparr>, 1700000000000::nat, ''0.k'')"
  let ?st = "addFiles (Some [?a, ?b, ?c]) initial_client"
  have ia: "task_id (new_task ?a) = ''a.txt-1700000000000-i''"
    by (simp add: new_task_def show_nat.simps digit_char_def)
  have ib: "task_id (new_task ?b) = ''a.txt-1700000000000-i''"
    by (simp add: new_task_def show_nat.simps digit_char_def)
  have ic: "task_id (new_task ?c) = ''b.txt-1700000000000-k''"
    by (simp add: new_task_def show_nat.simps digit_char_def)
  have f: "files ?st = [new_task ?a, new_task ?b, new_task ?c]"
    by (simp add: addFiles_def initial_client_def)
  have r1: "map task_id (files ?st)
      = [''a.txt-1700000000000-i'', ''a.txt-1700000000000-i'', ''b.txt-1700000000000-k'']"
    by (simp add: f ia ib ic)
  have r2: "map (\<lambda>f. file_size (task_file f)) (files ?st) = [5, 7, 9]"
    by (simp add: f) (simp add: new_task_def)
  have "files (removeFile ''a.txt-1700000000000-i'' ?st) = [new_task ?c]"
    by (simp add: removeFile_def f ia ib ic)
  then have r3: "removeFile ''a.txt-1700000000000-i'' ?st = addFiles (Some [?c]) initial_client"
    by (simp add: removeFile_def addFiles_def initial_client_def)
  from r1 r2 r3 show ?thesis by blast
qed

subsection \<open>Claim C10: when the type filter is bypassed\<close>

text \<open>
  C10. The test \<open>acceptedTypes[0] !== '*'\<close> fails exactly when the list begins with the
  string \<open>*\<close>. Then \<open>validateFile\<close> applies the size rule alone, whatever the engine says
  about any pattern. Otherwise, on an empty list or with \<open>*\<close> at a later position too,
  a file is accepted only if it is within the size limit and some pattern of the list,
  compiled as a regular expression, matches its MIME type, every pattern before it
  having been tried without a match.
\<close>

theorem C10_type_filter:
  "(first_is_star (acceptedTypes cfg) \<longleftrightarrow> (\<exists>rest. acceptedTypes cfg = ''*'' # rest))
   \<and> (first_is_star (acceptedTypes cfg) \<longrightarrow>
        validateFile rx cfg f =
          (if file_size f > maxFileSize cfg * 1024 * 1024
           then Inr (Some (''File exceeds '' @ show_nat (maxFileSize cfg) @ ''MB limit''))
           else Inr None))
   \<and> (\<not> first_is_star (acceptedTypes cfg) \<longrightarrow>
        (validateFile rx cfg f = Inr None \<longleftrightarrow>
           file_size f \<le> maxFileSize cfg * 1024 * 1024 \<and>
           (\<exists>i < length (acceptedTypes cfg).
              rx (acceptedTypes cfg ! i) (file_type f) = Inr True \<and>
              (\<forall>j < i. rx (acceptedTypes cfg ! j) (file_type f) = Inr False))))"
proof -
  have a: "first_is_star (acceptedTypes cfg) \<longleftrightarrow> (\<exists>rest. acceptedTypes cfg = ''*'' # rest)"
    by (cases "acceptedTypes cfg") (simp_all add: first_is_star_def)
  have b: "first_is_star (acceptedTypes cfg) \<longrightarrow>
        validateFile rx cfg f =
          (if file_size f > maxFileSize cfg * 1024 * 1024
           then Inr (Some (''File exceeds '' @ show_nat (maxFileSize cfg) @ ''MB limit''))
           else Inr None)"
    by (simp add: validateFile_def)
  have c: "\<not> first_is_star (acceptedTypes cfg) \<longrightarrow>
        (validateFile rx cfg f = Inr None \<longleftrightarrow>
           file_size f \<le> maxFileSize cfg * 1024 * 1024 \<and>
           some_match rx (acceptedTypes cfg) (file_type f) = Inr True)"
    by (auto simp: validateFile_def split: sum.splits bool.splits)
  from a b c some_match_iff [of rx "acceptedTypes cfg" "file_type f"] show ?thesis
    by simp
qed

text \<open>
  C10 at the default list, and at a list with \<open>*\<close> in second place: a PNG is accepted
  by the first pattern, a text file is not accepted (the second pattern does not
  compile).
\<close>

theorem C10_type_filter_witness:
  "first_is_star (acceptedTypes default_props)
   \<and> validateFile simple_engine default_props
        \<lparr>file_name = ''notes.txt'', file_size = 5, file_type = ''text/plain''\<rparr> = Inr None
   \<and> \<not> first_is_star (acceptedTypes (default_props\<lparr>acceptedTypes := [''image/png'', ''*'']\<rparr>))
   \<and> simple_engine ''image/png'' ''image/png'' = Inr True
   \<and> validateFile simple_engine (default_props\<lparr>acceptedTypes := [''image/png'', ''*'']\<rparr>)
        \<lparr>file_name = ''logo.png'', file_size = 5, file_type = ''image/png''\<rparr> = Inr None
   \<and> simple_engine ''image/png'' ''text/plain'' = Inr False
   \<and> simple_engine ''*'' ''text/plain''
        = Inl (ErrorObj ''Invalid regular expression: /*/: Nothing to repeat'')
   \<and> validateFile simple_engine (default_props\<lparr>acceptedTypes := [''image/png'', ''*'']\<rparr>)
        \<lparr>file_name = ''notes.txt'', file_size = 5, file_type = ''text/plain''\<rparr> \<noteq> Inr None"
proof -
  let ?cfg = "default_props\<lparr>acceptedTypes := [''image/png'', ''*'']\<rparr>"
  let ?png = "\<lparr>file_name = ''logo.png'', file_size = 5, file_type = ''image/png''\<rparr>"
  let ?txt = "\<lparr>file_name = ''notes.txt'', file_size = 5, file_type = ''text/plain''\<rparr>"
  have s1: "first_is_star (acceptedTypes default_props)"
    by (simp add: default_props_def first_is_star_def)
  have sz: "file_size ?txt \<le> maxFileSize default_props * 1024 * 1024"
    by (simp add: default_props_def)
  from C10_type_filter [of default_props simple_engine ?txt] s1 sz
  have v1: "validateFile simple_engine default_props ?txt = Inr None" by simp
  have s2: "\<not> first_is_star (acceptedTypes ?cfg)"
    by (simp add: first_is_star_def)
  have m1: "simple_engine ''image/png'' ''image/png'' = Inr True"
    by (simp add: simple_engine_def)
  have m2: "simple_engine ''image/png'' ''text/plain'' = Inr False"
    by (simp add: simple_engine_def)
  have m3: "simple_engine ''*'' ''text/plain''
        = Inl (ErrorObj ''Invalid regular expression: /*/: Nothing to repeat'')"
    by (simp add: simple_engine_def)
  have e: "\<exists>i < length (acceptedTypes ?cfg).
      simple_engine (acceptedTypes ?cfg ! i) (file_type ?png) = Inr True \<and>
      (\<forall>j < i. simple_engine (acceptedTypes ?cfg ! j) (file_type ?png) = Inr False)"
    using m1 by (intro exI [of _ 0]) simp
  have sz2: "file_size ?png \<le> maxFileSize ?cfg * 1024 * 1024"
    by (simp add: default_props_def)
  from C10_type_filter [of ?cfg simple_engine ?png] s2 e sz2
  have v2: "validateFile simple_engine ?cfg ?png = Inr None" by blast
  have n: "\<not> (\<exists>i < length (acceptedTypes ?cfg).
      simple_engine (acceptedTypes ?cfg ! i) (file_type ?txt) = Inr True \<and>
      (\<forall>j < i. simple_engine (acceptedTypes ?cfg ! j) (file_type ?txt) = Inr False))"
    using m2 m3 by (auto simp: less_Suc_eq numeral_2_eq_2)
  from C10_type_filter [of ?cfg simple_engine ?txt] s2 n
  have v3: "validateFile simple_engine ?cfg ?txt \<noteq> Inr None" by blast
  from s1 v1 s2 m1 v2 m2 m3 v3 show ?thesis by blast
qed

subsection \<open>Calls, results and the invariant of a running upload\<close>

lemma resume_result: "fst (uploadFile_resume t h out st) = result_for t out"
  by (simp add: result_for_def uploadFile_resume_def Let_def split: fetch_outcome.splits)

lemma result_for_terminal: "status (result_for t out) = Success \<or> status (result_for t out) = Error"
  by (simp add: result_for_def uploadFile_resume_def Let_def split: fetch_outcome.splits)

lemma resume_frame:
  "toasts (snd (uploadFile_resume t h out st)) = toasts st"
  "uploadComplete_calls (snd (uploadFile_resume t h out st)) = uploadComplete_calls st"
  "isUploading (snd (uploadFile_resume t h out st)) = isUploading st"
  "fetch_calls (snd (uploadFile_resume t h out st)) = fetch_calls st"
  by (simp_all add: uploadFile_resume_def clearInterval_def Let_def split: fetch_outcome.splits)

lemma fire_frame:
  "toasts (fire h st) = toasts st"
  "uploadComplete_calls (fire h st) = uploadComplete_calls st"
  "isUploading (fire h st) = isUploading st"
  "fetch_calls (fire h st) = fetch_calls st"
  "intervals (fire h st) = intervals st"
  by (simp_all add: fire_def interval_tick_def split: option.splits)

lemma begin_frame:
  "toasts (snd (uploadFile_begin rx cfg t st)) = toasts st"
  "uploadComplete_calls (snd (uploadFile_begin rx cfg t st)) = uploadComplete_calls st"
  "isUploading (snd (uploadFile_begin rx cfg t st)) = isUploading st"
  by (simp_all add: uploadFile_begin_def Let_def split: sum.splits option.splits)

lemma begin_call:
  "fst (uploadFile_begin rx cfg t st) =
     (case validateFile rx cfg (task_file t) of
        Inl e \<Rightarrow> Threw e
      | Inr (Some m) \<Rightarrow> Settled (t\<lparr>status := Error, errorMessage := Some m\<rparr>)
      | Inr None \<Rightarrow> Awaiting (next_interval st) t)"
  by (simp add: uploadFile_begin_def Let_def split: sum.splits option.splits)

lemma begin_fetch:
  "fetch_calls (snd (uploadFile_begin rx cfg t st)) =
     fetch_calls st @ (if validateFile rx cfg (task_file t) = Inr None
                       then [(endpoint cfg, task_file t)] else [])"
  by (simp add: uploadFile_begin_def Let_def split: sum.splits option.splits)

lemma start_all_frame:
  "toasts (snd (start_all rx cfg ts st)) = toasts st \<and>
   uploadComplete_calls (snd (start_all rx cfg ts st)) = uploadComplete_calls st \<and>
   isUploading (snd (start_all rx cfg ts st)) = isUploading st"
proof (induction ts arbitrary: st)
  case Nil
  show ?case by simp
next
  case (Cons t ts)
  obtain c st1 where b: "uploadFile_begin rx cfg t st = (c, st1)" by (cases "uploadFile_begin rx cfg t st")
  obtain cs st2 where r: "start_all rx cfg ts st1 = (cs, st2)" by (cases "start_all rx cfg ts st1")
  from begin_frame [of rx cfg t st] b have "toasts st1 = toasts st"
    "uploadComplete_calls st1 = uploadComplete_calls st" "isUploading st1 = isUploading st"
    by simp_all
  with Cons.IH [of st1] b r show ?case by simp
qed

lemma start_all_fetch:
  "fetch_calls (snd (start_all rx cfg ts st)) =
     fetch_calls st @ map (\<lambda>t. (endpoint cfg, task_file t))
       (filter (\<lambda>t. validateFile rx cfg (task_file t) = Inr None) ts)"
proof (induction ts arbitrary: st)
  case Nil
  show ?case by simp
next
  case (Cons t ts)
  obtain c st1 where b: "uploadFile_begin rx cfg t st = (c, st1)" by (cases "uploadFile_begin rx cfg t st")
  obtain cs st2 where r: "start_all rx cfg ts st1 = (cs, st2)" by (cases "start_all rx cfg ts st1")
  from begin_fetch [of rx cfg t st] b have "fetch_calls st1 =
     fetch_calls st @ (if validateFile rx cfg (task_file t) = Inr None
                       then [(endpoint cfg, task_file t)] else [])" by simp
  with Cons.IH [of st1] b r show ?case by simp
qed

lemma start_all_length: "length (fst (start_all rx cfg ts st)) = length ts"
proof (induction ts arbitrary: st)
  case Nil
  show ?case by simp
next
  case (Cons t ts)
  obtain c st1 where b: "uploadFile_begin rx cfg t st = (c, st1)" by (cases "uploadFile_begin rx cfg t st")
  obtain cs st2 where r: "start_all rx cfg ts st1 = (cs, st2)" by (cases "start_all rx cfg ts st1")
  from Cons.IH [of st1] b r show ?case by simp
qed

lemma start_all_nth:
  "i < length ts \<Longrightarrow>
     \<exists>st'. fst (start_all rx cfg ts st) ! i = fst (uploadFile_begin rx cfg (ts ! i) st')"
proof (induction ts arbitrary: st i)
  case Nil
  then show ?case by simp
next
  case (Cons t ts)
  obtain c st1 where b: "uploadFile_begin rx cfg t st = (c, st1)" by (cases "uploadFile_begin rx cfg t st")
  obtain cs st2 where r: "start_all rx cfg ts st1 = (cs, st2)" by (cases "start_all rx cfg ts st1")
  show ?case
  proof (cases i)
    case 0
    with b r have "fst (start_all rx cfg (t # ts) st) ! i = fst (uploadFile_begin rx cfg ((t # ts) ! i) st)"
      by simp
    then show ?thesis by blast
  next
    case (Suc k)
    with Cons.prems have "k < length ts" by simp
    from Cons.IH [OF this, of st1] obtain st' where
      "fst (start_all rx cfg ts st1) ! k = fst (uploadFile_begin rx cfg (ts ! k) st')" by blast
    with b r Suc have "fst (start_all rx cfg (t # ts) st) ! i
        = fst (uploadFile_begin rx cfg ((t # ts) ! i) st')" by simp
    then show ?thesis by blast
  qed
qed

lemma first_thrown_None: "first_thrown cs = None \<longleftrightarrow> (\<forall>c \<in> set cs. \<forall>e. c \<noteq> Threw e)"
  by (induction cs rule: first_thrown.induct) auto

lemma map_Settled_eq: "map Settled xs = map Settled ys \<longleftrightarrow> xs = ys"
  by (rule inj_map_eq_map) (simp add: inj_def)

lemma results_of_Some: "results_of cs = Some rs \<longleftrightarrow> cs = map Settled rs"
proof (induction cs arbitrary: rs)
  case Nil
  show ?case by auto
next
  case (Cons c cs)
  show ?case
  proof (cases c)
    case (Settled r)
    show ?thesis
    proof (cases "results_of cs")
      case None
      have "cs \<noteq> map Settled rs'" for rs' using Cons.IH [of rs'] None by simp
      then show ?thesis using None Settled by (cases rs) auto
    next
      case (Some rs')
      with Cons.IH [of rs'] have "cs = map Settled rs'" by simp
      with Some Settled show ?thesis by (cases rs) (auto simp: map_Settled_eq)
    qed
  next
    case (Threw e)
    then show ?thesis by (cases rs) auto
  next
    case (Awaiting h t)
    then show ?thesis by (cases rs) auto
  qed
qed

lemma count_partition:
  "\<forall>r \<in> set rs. status r = Success \<or> status r = Error \<Longrightarrow>
     successCount rs + errorCount rs = length rs"
  by (induction rs) (auto simp: successCount_def errorCount_def)

lemma advance_calls: "calls (advance cfg s) = calls s"
  by (simp add: advance_def split: option.splits sum.splits)

lemma step_calls:
  "calls (step cfg ev s) =
     (case ev of
        Settle i out \<Rightarrow>
          (if i < length (calls s) then
             (case calls s ! i of
                Awaiting h t \<Rightarrow> (calls s)[i := Settled (result_for t out)]
              | Settled r \<Rightarrow> calls s
              | Threw e \<Rightarrow> calls s)
           else calls s)
      | Fire h \<Rightarrow> calls s
      | Remove tid \<Rightarrow> calls s
      | Clear \<Rightarrow> calls s)"
proof (cases ev)
  case (Settle i out)
  show ?thesis
  proof (cases "i < length (calls s)")
    case False
    with Settle show ?thesis by (simp add: step_def)
  next
    case True
    show ?thesis
    proof (cases "calls s ! i")
      case (Awaiting h t)
      obtain r st' where u: "uploadFile_resume t h out (client_state s) = (r, st')"
        by (cases "uploadFile_resume t h out (client_state s)")
      with resume_result [of t h out "client_state s"] have "r = result_for t out" by simp
      with Settle True Awaiting u show ?thesis by (simp add: step_def advance_calls)
    qed (use Settle True in \<open>simp_all add: step_def\<close>)
  qed
qed (simp_all add: step_def)

lemma run_calls:
  "length (calls (run cfg evs s)) = length (calls s) \<and>
   (\<forall>i < length (calls s).
      calls (run cfg evs s) ! i =
        (case calls s ! i of
           Awaiting h t \<Rightarrow>
             (case settled_with i evs of
                None \<Rightarrow> Awaiting h t
              | Some out \<Rightarrow> Settled (result_for t out))
         | Settled r \<Rightarrow> Settled r
         | Threw e \<Rightarrow> Threw e))"
proof (induction evs arbitrary: s)
  case Nil
  show ?case by (auto split: call.splits)
next
  case (Cons ev evs)
  note ih = Cons.IH [of "step cfg ev s"]
  have len: "length (calls (step cfg ev s)) = length (calls s)"
    by (simp add: step_calls split: event.splits call.splits)
  show ?case
  proof (intro conjI allI impI)
    show "length (calls (run cfg (ev # evs) s)) = length (calls s)"
      using ih len by simp
  next
    fix i assume i: "i < length (calls s)"
    with ih len have r: "calls (run cfg (ev # evs) s) ! i =
        (case calls (step cfg ev s) ! i of
           Awaiting h t \<Rightarrow>
             (case settled_with i evs of
                None \<Rightarrow> Awaiting h t
              | Some out \<Rightarrow> Settled (result_for t out))
         | Settled r \<Rightarrow> Settled r
         | Threw e \<Rightarrow> Threw e)" by simp
    show "calls (run cfg (ev # evs) s) ! i =
        (case calls s ! i of
           Awaiting h t \<Rightarrow>
             (case settled_with i (ev # evs) of
                None \<Rightarrow> Awaiting h t
              | Some out \<Rightarrow> Settled (result_for t out))
         | Settled r \<Rightarrow> Settled r
         | Threw e \<Rightarrow> Threw e)"
    proof (cases ev)
      case (Settle j out)
      have other: "calls (step cfg ev s) ! i = calls s ! i" if "j \<noteq> i"
        using that Settle by (simp add: step_calls split: call.splits)
      show ?thesis
      proof (cases "calls s ! i")
        case (Threw e)
        then have "calls (step cfg ev s) ! i = Threw e"
          using Settle other by (cases "j = i") (simp_all add: step_calls)
        with r Threw show ?thesis by simp
      next
        case (Settled x)
        then have "calls (step cfg ev s) ! i = Settled x"
          using Settle other by (cases "j = i") (simp_all add: step_calls)
        with r Settled show ?thesis by simp
      next
        case (Awaiting h t)
        show ?thesis
        proof (cases "j = i")
          case True
          with Settle i Awaiting have "calls (step cfg ev s) ! i = Settled (result_for t out)"
            by (simp add: step_calls)
          with r Awaiting Settle True show ?thesis by simp
        next
          case False
          with other Awaiting have "calls (step cfg ev s) ! i = Awaiting h t" by simp
          with r Awaiting Settle False show ?thesis by simp
        qed
      qed
    next
      case (Fire h)
      then have "calls (step cfg ev s) = calls s" by (simp add: step_calls)
      with r Fire show ?thesis by (cases "calls s ! i") simp_all
    next
      case (Remove tid)
      then have "calls (step cfg ev s) = calls s" by (simp add: step_calls)
      with r Remove show ?thesis by (cases "calls s ! i") simp_all
    next
      case Clear
      then have "calls (step cfg ev s) = calls s" by (simp add: step_calls)
      with r Clear show ?thesis by (cases "calls s ! i") simp_all
    qed
  qed
qed

lemma first_thrown_update:
  "first_thrown cs = None \<Longrightarrow> first_thrown (cs[i := Settled r]) = None"
proof -
  assume "first_thrown cs = None"
  then have a: "\<forall>c \<in> set cs. \<forall>e. c \<noteq> Threw e" by (simp add: first_thrown_None)
  have "set (cs[i := Settled r]) \<subseteq> insert (Settled r) (set cs)"
    by (rule set_update_subset_insert)
  with a have "\<forall>c \<in> set (cs[i := Settled r]). \<forall>e. c \<noteq> Threw e" by auto
  then show ?thesis by (simp add: first_thrown_None)
qed

lemma inv_advance:
  assumes "first_thrown (calls s) = None" and "outcome s = None"
    and "toasts (client_state s) = T" and "uploadComplete_calls (client_state s) = U"
  shows "upload_invariant cfg T U (advance cfg s)"
  using assms
  by (cases "results_of (calls s)")
    (simp_all add: upload_invariant_def advance_def promise_all_def handleUpload_finish_def)

lemma inv_step:
  assumes "upload_invariant cfg T U s"
  shows "upload_invariant cfg T U (step cfg ev s)"
proof (cases ev)
  case (Fire h)
  with assms show ?thesis
    by (simp add: upload_invariant_def step_def fire_frame split: option.splits upload_outcome.splits)
next
  case (Remove tid)
  with assms show ?thesis
    by (simp add: upload_invariant_def step_def removeFile_def split: option.splits upload_outcome.splits)
next
  case Clear
  with assms show ?thesis
    by (simp add: upload_invariant_def step_def clearAll_def split: option.splits upload_outcome.splits)
next
  case (Settle i out)
  show ?thesis
  proof (cases "i < length (calls s)")
    case False
    with Settle assms show ?thesis by (simp add: step_def)
  next
    case True
    show ?thesis
    proof (cases "calls s ! i")
      case (Awaiting h t)
      have nr: "results_of (calls s) = None"
      proof (cases "results_of (calls s)")
        case (Some rs)
        then have "calls s = map Settled rs" by (simp add: results_of_Some)
        with True Awaiting show ?thesis by simp
      qed simp
      with assms have o: "outcome s = None"
        by (auto simp: upload_invariant_def split: option.splits upload_outcome.splits)
      with assms have f: "first_thrown (calls s) = None" "toasts (client_state s) = T"
        "uploadComplete_calls (client_state s) = U"
        by (simp_all add: upload_invariant_def)
      obtain r st' where u: "uploadFile_resume t h out (client_state s) = (r, st')"
        by (cases "uploadFile_resume t h out (client_state s)")
      with resume_frame [of t h out "client_state s"] f have
        "toasts st' = T" "uploadComplete_calls st' = U" by simp_all
      then have "upload_invariant cfg T U
          (advance cfg (s\<lparr>client_state := st', calls := (calls s)[i := Settled r]\<rparr>))"
        using f(1) o by (intro inv_advance) (simp_all add: first_thrown_update)
      with Settle True Awaiting u show ?thesis by (simp add: step_def)
    qed (use Settle True assms in \<open>simp_all add: step_def\<close>)
  qed
qed

lemma inv_run:
  "upload_invariant cfg T U s \<Longrightarrow> upload_invariant cfg T U (run cfg evs s)"
  by (induction evs arbitrary: s) (simp_all add: inv_step)

lemma handleUpload_some:
  assumes "filter (\<lambda>f. status f = Pending) (files st) \<noteq> []"
  shows "handleUpload rx cfg st =
     advance cfg
       \<lparr>client_state =
          snd (start_all rx cfg (filter (\<lambda>f. status f = Pending) (files st))
                 (st\<lparr>isUploading := True\<rparr>)),
        calls =
          fst (start_all rx cfg (filter (\<lambda>f. status f = Pending) (files st))
                 (st\<lparr>isUploading := True\<rparr>)),
        outcome = None\<rparr>"
  using assms by (simp add: handleUpload_def Let_def split: prod.splits)

lemma start_all_no_throw:
  assumes "\<forall>t \<in> set ts. \<forall>e. validateFile rx cfg (task_file t) \<noteq> Inl e"
  shows "first_thrown (fst (start_all rx cfg ts st)) = None"
proof -
  have "\<forall>c \<in> set (fst (start_all rx cfg ts st)). \<forall>e. c \<noteq> Threw e"
  proof (intro ballI allI)
    fix c e assume "c \<in> set (fst (start_all rx cfg ts st))"
    then obtain i where i: "i < length ts" "c = fst (start_all rx cfg ts st) ! i"
      by (auto simp: in_set_conv_nth start_all_length)
    from start_all_nth [OF i(1), of rx cfg st] i(2) obtain st' where
      c: "c = fst (uploadFile_begin rx cfg (ts ! i) st')" by auto
    from i(1) assms have "\<forall>e. validateFile rx cfg (task_file (ts ! i)) \<noteq> Inl e" by simp
    with c show "c \<noteq> Threw e"
      by (auto simp: begin_call split: sum.splits option.splits)
  qed
  then show ?thesis by (simp add: first_thrown_None)
qed

lemma inv_init:
  assumes "filter (\<lambda>f. status f = Pending) (files st) \<noteq> []"
    and "\<forall>t \<in> set (filter (\<lambda>f. status f = Pending) (files st)).
           \<forall>e. validateFile rx cfg (task_file t) \<noteq> Inl e"
  shows "upload_invariant cfg (toasts st) (uploadComplete_calls st) (handleUpload rx cfg st)"
  unfolding handleUpload_some [OF assms(1)]
  by (rule inv_advance) (simp_all add: start_all_no_throw [OF assms(2)] start_all_frame)

lemma uploadFile_fst:
  "fst (uploadFile rx cfg t n out st) =
     (case validateFile rx cfg (task_file t) of
        Inl e \<Rightarrow> Inl e
      | Inr (Some m) \<Rightarrow> Inr (t\<lparr>status := Error, errorMessage := Some m\<rparr>)
      | Inr None \<Rightarrow> Inr (result_for t out))"
proof -
  have r: "fst (case uploadFile_resume t h out s of (r, st2) \<Rightarrow> (Inr r, st2)) = Inr (result_for t out)"
    for h s
    by (simp add: case_prod_beta resume_result)
  show ?thesis
    by (simp add: uploadFile_def uploadFile_begin_def Let_def r split: sum.splits option.splits)
qed

lemma advance_fetch: "fetch_calls (client_state (advance cfg s)) = fetch_calls (client_state s)"
  by (simp add: advance_def handleUpload_finish_def split: option.splits sum.splits)

lemma all_settled:
  "\<forall>i < length cs. \<exists>r. cs ! i = Settled r \<Longrightarrow> \<exists>rs. cs = map Settled rs"
proof (induction cs)
  case Nil
  show ?case by simp
next
  case (Cons c cs)
  from Cons.prems have "\<exists>r. (c # cs) ! 0 = Settled r" by blast
  then obtain r where c: "c = Settled r" by auto
  have "\<forall>i < length cs. \<exists>r. cs ! i = Settled r"
  proof (intro allI impI)
    fix i assume "i < length cs"
    then have "Suc i < length (c # cs)" by simp
    with Cons.prems have "\<exists>r. (c # cs) ! Suc i = Settled r" by blast
    then show "\<exists>r. cs ! i = Settled r" by simp
  qed
  from Cons.IH [OF this] obtain rs where "cs = map Settled rs" by blast
  with c have "c # cs = map Settled (r # rs)" by simp
  then show ?case by (rule exI)
qed

lemma begin_accepted:
  "validateFile rx cfg (task_file t) = Inr None \<Longrightarrow>
     uploadFile_begin rx cfg t st =
       (Awaiting (next_interval st) t,
        st\<lparr>files :=
             map (\<lambda>f. if task_id f = task_id t
                       then f\<lparr>status := Uploading, progress := 10\<rparr> else f) (files st),
           intervals := intervals st @ [(next_interval st, task_id t)],
           next_interval := Suc (next_interval st),
           fetch_calls := fetch_calls st @ [(endpoint cfg, task_file t)]\<rparr>)"
  by (simp add: uploadFile_begin_def Let_def)

subsection \<open>Two files being uploaded\<close>

lemma two_files_eq:
  "two_files = initial_client\<lparr>files := [task_a, task_b]\<rparr>"
  by (simp add: two_files_def addFiles_def new_task_def initial_client_def task_a_def task_b_def
      show_nat.simps digit_char_def)

lemma validate_a: "validateFile rx default_props (task_file task_a) = Inr None"
  by (simp add: validateFile_def default_props_def first_is_star_def task_a_def)

lemma validate_b: "validateFile rx default_props (task_file task_b) = Inr None"
  by (simp add: validateFile_def default_props_def first_is_star_def task_b_def)

lemma ids_differ: "task_id task_a \<noteq> task_id task_b"
  by (simp add: task_a_def task_b_def)

lemma pending_ab: "status task_a = Pending" "status task_b = Pending"
  by (simp_all add: task_a_def task_b_def)

lemma pending_two: "filter (\<lambda>f. status f = Pending) (files two_files) = [task_a, task_b]"
  by (simp add: two_files_eq) (simp add: task_a_def task_b_def)

lemma handleUpload_two:
  "handleUpload rx default_props two_files =
     \<lparr>client_state =
        \<lparr>files = [task_a\<lparr>status := Uploading, progress := 10\<rparr>,
                  task_b\<lparr>status := Uploading, progress := 10\<rparr>],
         isUploading = True,
         fetch_calls = [(''/api/upload'', task_file task_a), (''/api/upload'', task_file task_b)],
         intervals = [(1, task_id task_a), (2, task_id task_b)],
         next_interval = 3, toasts = [], uploadComplete_calls = []\<rparr>,
      calls = [Awaiting 1 task_a, Awaiting 2 task_b],
      outcome = None\<rparr>"
  using ids_differ
  by (simp add: handleUpload_def pending_ab Let_def begin_accepted validate_a validate_b
      advance_def promise_all_def two_files_eq initial_client_def)
    (simp add: default_props_def)

subsection \<open>Claim C6: the progress interval\<close>

text \<open>
  What the interval does when it fires: a task's progress changes only if the task has
  the captured id, is \<open>uploading\<close> and is below 90, and then by 20, capped at 90; so
  progress never goes down and stays within 90. When \<open>fetch\<close> gives a response, of any
  status, the interval is cleared and firing it changes nothing any more. When \<open>fetch\<close>
  rejects, \<open>uploadFile\<close> leaves the state as it is, the interval included.
\<close>

lemma interval_tick_progress:
  assumes "i < length (files st)"
  shows "files (interval_tick tid st) ! i =
           (if task_id (files st ! i) = tid \<and> status (files st ! i) = Uploading
               \<and> progress (files st ! i) < 90
            then (files st ! i)\<lparr>progress := min (progress (files st ! i) + 20) 90\<rparr>
            else files st ! i)"
    and "progress (files st ! i) \<le> progress (files (interval_tick tid st) ! i)"
    and "progress (files st ! i) \<le> 90 \<Longrightarrow> progress (files (interval_tick tid st) ! i) \<le> 90"
    and "status (files (interval_tick tid st) ! i) = status (files st ! i)"
  using assms by (simp_all add: interval_tick_def)

lemma interval_tick_length: "length (files (interval_tick tid st)) = length (files st)"
  by (simp add: interval_tick_def)

lemma responded_clears:
  "map_of (intervals (snd (uploadFile_resume t h (Responded r) st))) h = None"
  "fire h (snd (uploadFile_resume t h (Responded r) st)) = snd (uploadFile_resume t h (Responded r) st)"
proof -
  have "h \<notin> fst ` set (filter (\<lambda>x. fst x \<noteq> h) (intervals st))" by auto
  then have m: "map_of (filter (\<lambda>x. fst x \<noteq> h) (intervals st)) h = None"
    by (simp add: map_of_eq_None_iff)
  then show "map_of (intervals (snd (uploadFile_resume t h (Responded r) st))) h = None"
    by (simp add: uploadFile_resume_def clearInterval_def Let_def)
  then show "fire h (snd (uploadFile_resume t h (Responded r) st))
      = snd (uploadFile_resume t h (Responded r) st)"
    by (simp add: fire_def)
qed

lemma rejected_keeps:
  "snd (uploadFile_resume t h (Rejected e) st) = st"
  by (simp add: uploadFile_resume_def)

text \<open>
  C6 says the interval is cleared when the network operation resolves, on the failure
  path too, so that progress does not change afterwards. Two files are being uploaded and
  the first request is rejected (a network error) while the second is outstanding: the
  first call has returned its \<open>error\<close> result, its interval 1 is still set, and when it
  fires the first task goes from 10 to 30. The interval is still set after
  \<open>handleUpload\<close> has ended. Had the first request been answered with status 500, its
  interval would have been cleared and firing it would change nothing.
\<close>

theorem C6_interval_survives_rejection:
  "calls (run default_props [Settle 0 (Rejected (ErrorObj ''Failed to fetch''))]
            (handleUpload simple_engine default_props two_files))
     = [Settled (task_a\<lparr>status := Error, errorMessage := Some ''Failed to fetch'', progress := 0\<rparr>),
        Awaiting 2 task_b]
   \<and> intervals (client_state (run default_props [Settle 0 (Rejected (ErrorObj ''Failed to fetch''))]
        (handleUpload simple_engine default_props two_files)))
     = [(1, task_id task_a), (2, task_id task_b)]
   \<and> map progress (files (client_state (run default_props
        [Settle 0 (Rejected (ErrorObj ''Failed to fetch''))]
        (handleUpload simple_engine default_props two_files))))
     = [10, 10]
   \<and> map progress (files (client_state (run default_props
        [Settle 0 (Rejected (ErrorObj ''Failed to fetch'')), Fire 1]
        (handleUpload simple_engine default_props two_files))))
     = [30, 10]
   \<and> intervals (client_state (run default_props
        [Settle 0 (Rejected (ErrorObj ''Failed to fetch'')), Fire 1,
         Settle 1 (Responded \<lparr>resp_status = 200, statusText = ''OK''\<rparr>)]
        (handleUpload simple_engine default_props two_files)))
     = [(1, task_id task_a)]
   \<and> intervals (client_state (run default_props
        [Settle 0 (Responded \<lparr>resp_status = 500, statusText = ''Internal Server Error''\<rparr>)]
        (handleUpload simple_engine default_props two_files)))
     = [(2, task_id task_b)]
   \<and> map progress (files (client_state (run default_props
        [Settle 0 (Responded \<lparr>resp_status = 500, statusText = ''Internal Server Error''\<rparr>), Fire 1]
        (handleUpload simple_engine default_props two_files))))
     = [10, 10]"
proof -
  let ?s0 = "handleUpload simple_engine default_props two_files"
  let ?rej = "Rejected (ErrorObj ''Failed to fetch'')"
  let ?ea = "task_a\<lparr>status := Error, errorMessage := Some ''Failed to fetch'', progress := 0\<rparr>"
  let ?c0 = "\<lparr>files = [task_a\<lparr>status := Uploading, progress := 10\<rparr>,
                  task_b\<lparr>status := Uploading, progress := 10\<rparr>],
         isUploading = True,
         fetch_calls = [(''/api/upload'', task_file task_a), (''/api/upload'', task_file task_b)],
         intervals = [(1, task_id task_a), (2, task_id task_b)],
         next_interval = 3, toasts = [], uploadComplete_calls = []\<rparr>"
  define S1 where "S1 =
      \<lparr>client_state = ?c0, calls = [Settled ?ea, Awaiting 2 task_b], outcome = None\<rparr>"
  define S2 where "S2 =
      \<lparr>client_state = ?c0\<lparr>files := [task_a\<lparr>status := Uploading, progress := 30\<rparr>,
                  task_b\<lparr>status := Uploading, progress := 10\<rparr>]\<rparr>,
       calls = [Settled ?ea, Awaiting 2 task_b], outcome = None\<rparr>"
  define T1 where "T1 =
      \<lparr>client_state = ?c0\<lparr>intervals := [(2, task_id task_b)]\<rparr>,
       calls = [Settled (task_a\<lparr>status := Error,
                  errorMessage := Some ''Upload failed: Internal Server Error'', progress := 0\<rparr>),
                Awaiting 2 task_b],
       outcome = None\<rparr>"
  have s1: "step default_props (Settle 0 ?rej) ?s0 = S1"
    by (simp add: S1_def handleUpload_two step_def uploadFile_resume_def catch_message_def
        advance_def promise_all_def)
  have s2: "step default_props (Fire (Suc 0)) S1 = S2"
    using ids_differ by (simp add: S1_def S2_def step_def fire_def interval_tick_def)
  have s3: "intervals (client_state (step default_props
        (Settle (Suc 0) (Responded \<lparr>resp_status = 200, statusText = ''OK''\<rparr>)) S2))
      = [(1, task_id task_a)]"
    by (simp add: S2_def step_def uploadFile_resume_def ok_def clearInterval_def Let_def
        advance_def promise_all_def handleUpload_finish_def)
  have t1: "step default_props
        (Settle 0 (Responded \<lparr>resp_status = 500, statusText = ''Internal Server Error''\<rparr>)) ?s0
      = T1"
    by (simp add: T1_def handleUpload_two step_def uploadFile_resume_def ok_def clearInterval_def
        catch_message_def Let_def advance_def promise_all_def)
  have t2: "map progress (files (client_state (step default_props (Fire (Suc 0)) T1))) = [10, 10]"
    by (simp add: T1_def step_def fire_def)
  have r1: "calls (run default_props [Settle 0 ?rej] ?s0) = [Settled ?ea, Awaiting 2 task_b]"
    by (simp add: s1) (simp add: S1_def)
  have r2: "intervals (client_state (run default_props [Settle 0 ?rej] ?s0))
      = [(1, task_id task_a), (2, task_id task_b)]"
    by (simp add: s1) (simp add: S1_def)
  have r3: "map progress (files (client_state (run default_props [Settle 0 ?rej] ?s0))) = [10, 10]"
    by (simp add: s1) (simp add: S1_def)
  have r4: "map progress (files (client_state (run default_props [Settle 0 ?rej, Fire 1] ?s0)))
      = [30, 10]"
    by (simp add: s1 s2) (simp add: S2_def)
  have r5: "intervals (client_state (run default_props
        [Settle 0 ?rej, Fire 1, Settle 1 (Responded \<lparr>resp_status = 200, statusText = ''OK''\<rparr>)] ?s0))
      = [(1, task_id task_a)]"
    using s3 by (simp add: s1 s2)
  have r6: "intervals (client_state (run default_props
        [Settle 0 (Responded \<lparr>resp_status = 500, statusText = ''Internal Server Error''\<rparr>)] ?s0))
      = [(2, task_id task_b)]"
    by (simp add: t1) (simp add: T1_def)
  have r7: "map progress (files (client_state (run default_props
        [Settle 0 (Responded \<lparr>resp_status = 500, statusText = ''Internal Server Error''\<rparr>), Fire 1] ?s0)))
      = [10, 10]"
    using t2 by (simp add: t1)
  from r1 r2 r3 r4 r5 r6 r7 show ?thesis by blast
qed

subsection \<open>Claim C7: handleUpload\<close>

text \<open>
  What \<open>handleUpload\<close> does when validation throws for no task. Let at least one task be
  pending and let \<open>validateFile\<close> throw for none of the pending tasks. \<open>handleUpload\<close> makes one \<open>uploadFile\<close> call per pending
  task and has issued the \<open>fetch\<close> of every task that passed validation before any of
  them settles. Whatever events follow and in whatever order (intervals firing, requests
  settling, the user removing tasks or clearing the list): as long as some request has
  not settled, \<open>handleUpload\<close> has not ended; once all have, it has ended with one result
  per pending task, in the order of the tasks, each the result \<open>uploadFile\<close> alone
  returns for that task and the outcome of its request, each \<open>success\<close> or \<open>error\<close>, so
  that the two counts add up to the number of pending tasks; the summary toasts built
  from the counts have been shown, the callback, if there is one, has been called once
  with the results, and \<open>isUploading\<close> is false again.
\<close>

lemma handleUpload_completes:
  assumes pend: "pend = filter (\<lambda>f. status f = Pending) (files st)" and ne: "pend \<noteq> []"
    and nothrow: "\<forall>t \<in> set pend. \<forall>e. validateFile rx cfg (task_file t) \<noteq> Inl e"
    and fin: "final = run cfg evs (handleUpload rx cfg st)"
  shows "length (calls (handleUpload rx cfg st)) = length pend
     \<and> fetch_calls (client_state (handleUpload rx cfg st))
         = fetch_calls st @ map (\<lambda>t. (endpoint cfg, task_file t))
             (filter (\<lambda>t. validateFile rx cfg (task_file t) = Inr None) pend)
     \<and> ((\<exists>i < length pend. validateFile rx cfg (task_file (pend ! i)) = Inr None
            \<and> settled_with i evs = None) \<longrightarrow> outcome final = None)
     \<and> ((\<forall>i < length pend. validateFile rx cfg (task_file (pend ! i)) = Inr None
            \<longrightarrow> settled_with i evs \<noteq> None) \<longrightarrow>
         (\<exists>rs. outcome final = Some (Completed rs) \<and> length rs = length pend
            \<and> (\<forall>i < length pend. \<forall>out n st'.
                  (validateFile rx cfg (task_file (pend ! i)) = Inr None
                     \<longrightarrow> settled_with i evs = Some out)
                  \<longrightarrow> fst (uploadFile rx cfg (pend ! i) n out st') = Inr (rs ! i))
            \<and> (\<forall>r \<in> set rs. status r = Success \<or> status r = Error)
            \<and> successCount rs + errorCount rs = length pend
            \<and> toasts (client_state final) = toasts st @ summary_toasts rs
            \<and> uploadComplete_calls (client_state final)
                = uploadComplete_calls st @ (if onUploadComplete cfg then [rs] else [])
            \<and> \<not> isUploading (client_state final)))"
proof -
  let ?s0 = "handleUpload rx cfg st"
  let ?st1 = "st\<lparr>isUploading := True\<rparr>"
  from pend ne have ne': "filter (\<lambda>f. status f = Pending) (files st) \<noteq> []" by simp
  have cs0: "calls ?s0 = fst (start_all rx cfg pend ?st1)"
    by (simp add: handleUpload_some [OF ne'] advance_calls pend)
  have len0: "length (calls ?s0) = length pend"
    by (simp add: cs0 start_all_length)
  have fetch0: "fetch_calls (client_state ?s0)
         = fetch_calls st @ map (\<lambda>t. (endpoint cfg, task_file t))
             (filter (\<lambda>t. validateFile rx cfg (task_file t) = Inr None) pend)"
    by (simp add: handleUpload_some [OF ne'] advance_fetch start_all_fetch pend)
  have inv: "upload_invariant cfg (toasts st) (uploadComplete_calls st) final"
    unfolding fin using nothrow by (intro inv_run inv_init [OF ne']) (simp add: pend)
  have call0: "\<exists>h. calls ?s0 ! i =
        (case validateFile rx cfg (task_file (pend ! i)) of
           Inl e \<Rightarrow> Threw e
         | Inr (Some m) \<Rightarrow> Settled ((pend ! i)\<lparr>status := Error, errorMessage := Some m\<rparr>)
         | Inr None \<Rightarrow> Awaiting h (pend ! i))" if "i < length pend" for i
  proof -
    from start_all_nth [OF that, of rx cfg ?st1] obtain st' where
      "calls ?s0 ! i = fst (uploadFile_begin rx cfg (pend ! i) st')" by (auto simp: cs0)
    then show ?thesis by (auto simp: begin_call)
  qed
  have lenf: "length (calls final) = length pend"
    using run_calls [of cfg evs ?s0] by (simp add: fin len0)
  have callf: "calls final ! i =
        (case calls ?s0 ! i of
           Awaiting h t \<Rightarrow>
             (case settled_with i evs of
                None \<Rightarrow> Awaiting h t
              | Some out \<Rightarrow> Settled (result_for t out))
         | Settled r \<Rightarrow> Settled r
         | Threw e \<Rightarrow> Threw e)" if "i < length pend" for i
    using run_calls [of cfg evs ?s0] that by (simp add: fin len0)
  have waiting: "outcome final = None"
    if "\<exists>i < length pend. validateFile rx cfg (task_file (pend ! i)) = Inr None
            \<and> settled_with i evs = None"
  proof -
    from that obtain i where i: "i < length pend"
      "validateFile rx cfg (task_file (pend ! i)) = Inr None" "settled_with i evs = None"
      by blast
    from call0 [OF i(1)] i(2) obtain h where "calls ?s0 ! i = Awaiting h (pend ! i)" by auto
    with callf [OF i(1)] i(3) have a: "calls final ! i = Awaiting h (pend ! i)" by simp
    have "results_of (calls final) = None"
    proof (cases "results_of (calls final)")
      case (Some rs)
      then have "calls final = map Settled rs" by (simp add: results_of_Some)
      with a i(1) lenf show ?thesis by (metis call.distinct(5) length_map nth_map)
    qed simp
    with inv show ?thesis
      by (auto simp: upload_invariant_def split: option.splits upload_outcome.splits)
  qed
  have finished: "\<exists>rs. outcome final = Some (Completed rs) \<and> length rs = length pend
            \<and> (\<forall>i < length pend. \<forall>out n st'.
                  (validateFile rx cfg (task_file (pend ! i)) = Inr None
                     \<longrightarrow> settled_with i evs = Some out)
                  \<longrightarrow> fst (uploadFile rx cfg (pend ! i) n out st') = Inr (rs ! i))
            \<and> (\<forall>r \<in> set rs. status r = Success \<or> status r = Error)
            \<and> successCount rs + errorCount rs = length pend
            \<and> toasts (client_state final) = toasts st @ summary_toasts rs
            \<and> uploadComplete_calls (client_state final)
                = uploadComplete_calls st @ (if onUploadComplete cfg then [rs] else [])
            \<and> \<not> isUploading (client_state final)"
    if all: "\<forall>i < length pend. validateFile rx cfg (task_file (pend ! i)) = Inr None
            \<longrightarrow> settled_with i evs \<noteq> None"
  proof -
    have each: "calls final ! i = Settled
          (case validateFile rx cfg (task_file (pend ! i)) of
             Inr (Some m) \<Rightarrow> (pend ! i)\<lparr>status := Error, errorMessage := Some m\<rparr>
           | _ \<Rightarrow> result_for (pend ! i) (the (settled_with i evs)))"
      if i: "i < length pend" for i
    proof -
      from nothrow i have nt: "\<forall>e. validateFile rx cfg (task_file (pend ! i)) \<noteq> Inl e" by simp
      from call0 [OF i] obtain h where h: "calls ?s0 ! i =
        (case validateFile rx cfg (task_file (pend ! i)) of
           Inl e \<Rightarrow> Threw e
         | Inr (Some m) \<Rightarrow> Settled ((pend ! i)\<lparr>status := Error, errorMessage := Some m\<rparr>)
         | Inr None \<Rightarrow> Awaiting h (pend ! i))" by blast
      show ?thesis
      proof (cases "validateFile rx cfg (task_file (pend ! i))")
        case (Inl e)
        with nt show ?thesis by simp
      next
        case (Inr v)
        show ?thesis
        proof (cases v)
          case None
          with Inr all i obtain out where "settled_with i evs = Some out" by auto
          with callf [OF i] h Inr None show ?thesis by simp
        next
          case (Some m)
          with callf [OF i] h Inr show ?thesis by simp
        qed
      qed
    qed
    then have "\<forall>i < length (calls final). \<exists>r. calls final ! i = Settled r"
      by (simp add: lenf)
    from all_settled [OF this] obtain rs where rs: "calls final = map Settled rs" by blast
    then have res: "results_of (calls final) = Some rs" by (simp add: results_of_Some)
    with inv have o: "outcome final = Some (Completed rs)"
      and rep: "toasts (client_state final) = toasts st @ summary_toasts rs"
        "uploadComplete_calls (client_state final)
                = uploadComplete_calls st @ (if onUploadComplete cfg then [rs] else [])"
        "\<not> isUploading (client_state final)"
      by (auto simp: upload_invariant_def split: option.splits upload_outcome.splits)
    from rs lenf have len: "length rs = length pend" by (metis length_map)
    have nth: "rs ! i =
          (case validateFile rx cfg (task_file (pend ! i)) of
             Inr (Some m) \<Rightarrow> (pend ! i)\<lparr>status := Error, errorMessage := Some m\<rparr>
           | _ \<Rightarrow> result_for (pend ! i) (the (settled_with i evs)))"
      if i: "i < length pend" for i
      using each [OF i] rs i len by simp
    have alone: "fst (uploadFile rx cfg (pend ! i) n out st') = Inr (rs ! i)"
      if i: "i < length pend"
        and out: "validateFile rx cfg (task_file (pend ! i)) = Inr None
                     \<longrightarrow> settled_with i evs = Some out"
      for i out n st'
    proof -
      from nothrow i have nt: "\<forall>e. validateFile rx cfg (task_file (pend ! i)) \<noteq> Inl e" by simp
      with out show ?thesis
        by (auto simp: uploadFile_fst nth [OF i] split: sum.splits option.splits)
    qed
    have terminal: "status r = Success \<or> status r = Error" if "r \<in> set rs" for r
    proof -
      from that obtain i where i: "i < length pend" "r = rs ! i"
        by (auto simp: in_set_conv_nth len)
      from nothrow i(1) have "\<forall>e. validateFile rx cfg (task_file (pend ! i)) \<noteq> Inl e" by simp
      then show ?thesis
        using result_for_terminal [of "pend ! i" "the (settled_with i evs)"]
        by (auto simp: i(2) nth [OF i(1)] split: sum.splits option.splits)
    qed
    then have cnt: "successCount rs + errorCount rs = length pend"
      using count_partition [of rs] by (simp add: len)
    from o len alone terminal cnt rep show ?thesis by blast
  qed
  from len0 fetch0 waiting finished show ?thesis by blast
qed

text \<open>
  Two pending files, with the callback set: the second request succeeds first, then the
  first fails with status 500.
\<close>

lemma handleUpload_completes_example:
  "filter (\<lambda>f. status f = Pending) (files two_files) = [task_a, task_b]
   \<and> validateFile simple_engine (default_props\<lparr>onUploadComplete := True\<rparr>) (task_file task_a) = Inr None
   \<and> validateFile simple_engine (default_props\<lparr>onUploadComplete := True\<rparr>) (task_file task_b) = Inr None
   \<and> settled_with 0
         [Settle 1 (Responded \<lparr>resp_status = 200, statusText = ''OK''\<rparr>), Fire 1,
          Settle 0 (Responded \<lparr>resp_status = 500, statusText = ''Internal Server Error''\<rparr>)]
       = Some (Responded \<lparr>resp_status = 500, statusText = ''Internal Server Error''\<rparr>)
   \<and> settled_with 1
         [Settle 1 (Responded \<lparr>resp_status = 200, statusText = ''OK''\<rparr>), Fire 1,
          Settle 0 (Responded \<lparr>resp_status = 500, statusText = ''Internal Server Error''\<rparr>)]
       = Some (Responded \<lparr>resp_status = 200, statusText = ''OK''\<rparr>)
   \<and> outcome (run (default_props\<lparr>onUploadComplete := True\<rparr>)
         [Settle 1 (Responded \<lparr>resp_status = 200, statusText = ''OK''\<rparr>), Fire 1,
          Settle 0 (Responded \<lparr>resp_status = 500, statusText = ''Internal Server Error''\<rparr>)]
         (handleUpload simple_engine (default_props\<lparr>onUploadComplete := True\<rparr>) two_files))
       = Some (Completed
           [task_a\<lparr>status := Error,
              errorMessage := Some ''Upload failed: Internal Server Error'', progress := 0\<rparr>,
            task_b\<lparr>status := Success, progress := 100\<rparr>])
   \<and> successCount
         [task_a\<lparr>status := Error,
            errorMessage := Some ''Upload failed: Internal Server Error'', progress := 0\<rparr>,
          task_b\<lparr>status := Success, progress := 100\<rparr>]
       + errorCount
         [task_a\<lparr>status := Error,
            errorMessage := Some ''Upload failed: Internal Server Error'', progress := 0\<rparr>,
          task_b\<lparr>status := Success, progress := 100\<rparr>] = 2
   \<and> toasts (client_state (run (default_props\<lparr>onUploadComplete := True\<rparr>)
         [Settle 1 (Responded \<lparr>resp_status = 200, statusText = ''OK''\<rparr>), Fire 1,
          Settle 0 (Responded \<lparr>resp_status = 500, statusText = ''Internal Server Error''\<rparr>)]
         (handleUpload simple_engine (default_props\<lparr>onUploadComplete := True\<rparr>) two_files)))
       = [\<lparr>title = ''Upload complete'', description = ''1 file uploaded successfully.'',
           destructive = False\<rparr>,
          \<lparr>title = ''Some uploads failed'', description = ''1 file failed to upload.'',
           destructive = True\<rparr>]
   \<and> uploadComplete_calls (client_state (run (default_props\<lparr>onUploadComplete := True\<rparr>)
         [Settle 1 (Responded \<lparr>resp_status = 200, statusText = ''OK''\<rparr>), Fire 1,
          Settle 0 (Responded \<lparr>resp_status = 500, statusText = ''Internal Server Error''\<rparr>)]
         (handleUpload simple_engine (default_props\<lparr>onUploadComplete := True\<rparr>) two_files)))
       = [[task_a\<lparr>status := Error,
              errorMessage := Some ''Upload failed: Internal Server Error'', progress := 0\<rparr>,
            task_b\<lparr>status := Success, progress := 100\<rparr>]]"
proof -
  let ?cfg = "default_props\<lparr>onUploadComplete := True\<rparr>"
  let ?ok = "Responded \<lparr>resp_status = 200, statusText = ''OK''\<rparr>"
  let ?bad = "Responded \<lparr>resp_status = 500, statusText = ''Internal Server Error''\<rparr>"
  let ?evs = "[Settle 1 ?ok, Fire 1, Settle 0 ?bad]"
  let ?ra = "task_a\<lparr>status := Error,
              errorMessage := Some ''Upload failed: Internal Server Error'', progress := 0\<rparr>"
  let ?rb = "task_b\<lparr>status := Success, progress := 100\<rparr>"
  let ?final = "run ?cfg ?evs (handleUpload simple_engine ?cfg two_files)"
  have va: "validateFile simple_engine ?cfg (task_file task_a) = Inr None"
    by (simp add: validateFile_def default_props_def first_is_star_def task_a_def)
  have vb: "validateFile simple_engine ?cfg (task_file task_b) = Inr None"
    by (simp add: validateFile_def default_props_def first_is_star_def task_b_def)
  have p: "[task_a, task_b] = filter (\<lambda>f. status f = Pending) (files two_files)"
    by (simp add: pending_two)
  have ne: "[task_a, task_b] \<noteq> []" by simp
  have nt: "\<forall>t \<in> set [task_a, task_b]. \<forall>e. validateFile simple_engine ?cfg (task_file t) \<noteq> Inl e"
    by (simp add: va vb)
  have w0: "settled_with 0 ?evs = Some ?bad" by simp
  have w1: "settled_with 1 ?evs = Some ?ok" by simp
  have al: "\<forall>i < length [task_a, task_b].
      validateFile simple_engine ?cfg (task_file ([task_a, task_b] ! i)) = Inr None
        \<longrightarrow> settled_with i ?evs \<noteq> None"
    by (simp add: less_Suc_eq numeral_2_eq_2)
  from handleUpload_completes [OF p ne nt refl, of ?evs] al
  obtain rs where o: "outcome ?final = Some (Completed rs)" and len: "length rs = length [task_a, task_b]"
    and each: "\<forall>i < length [task_a, task_b]. \<forall>out n st'.
                  (validateFile simple_engine ?cfg (task_file ([task_a, task_b] ! i)) = Inr None
                     \<longrightarrow> settled_with i ?evs = Some out)
                  \<longrightarrow> fst (uploadFile simple_engine ?cfg ([task_a, task_b] ! i) n out st') = Inr (rs ! i)"
    and rep: "toasts (client_state ?final) = toasts two_files @ summary_toasts rs"
      "uploadComplete_calls (client_state ?final)
         = uploadComplete_calls two_files @ (if onUploadComplete ?cfg then [rs] else [])"
    by blast
  have ua: "fst (uploadFile simple_engine ?cfg task_a 0 ?bad initial_client) = Inr ?ra"
    by (simp add: uploadFile_def begin_accepted [OF va] uploadFile_resume_def ok_def Let_def
        catch_message_def)
  have ub: "fst (uploadFile simple_engine ?cfg task_b 0 ?ok initial_client) = Inr ?rb"
    by (simp add: uploadFile_def begin_accepted [OF vb] uploadFile_resume_def ok_def Let_def)
  have i0: "0 < length [task_a, task_b]" and i1: "1 < length [task_a, task_b]" by simp_all
  have p0: "validateFile simple_engine ?cfg (task_file ([task_a, task_b] ! 0)) = Inr None
      \<Longrightarrow> settled_with 0 ?evs = Some ?bad" using w0 by blast
  have p1: "validateFile simple_engine ?cfg (task_file ([task_a, task_b] ! 1)) = Inr None
      \<Longrightarrow> settled_with 1 ?evs = Some ?ok" using w1 by blast
  from each [rule_format, OF i0 p0, of 0 initial_client] ua have r0: "rs ! 0 = ?ra" by simp
  from each [rule_format, OF i1 p1, of 0 initial_client] ub have r1: "rs ! 1 = ?rb" by simp
  from len obtain x y where xy: "rs = [x, y]"
    by (cases rs; cases "tl rs") auto
  with r0 r1 have rs: "rs = [?ra, ?rb]" by simp
  have cnt: "successCount [?ra, ?rb] + errorCount [?ra, ?rb] = 2"
    by (simp add: successCount_def errorCount_def)
  have st: "summary_toasts [?ra, ?rb]
       = [\<lparr>title = ''Upload complete'', description = ''1 file uploaded successfully.'',
           destructive = False\<rparr>,
          \<lparr>title = ''Some uploads failed'', description = ''1 file failed to upload.'',
           destructive = True\<rparr>]"
    by (simp add: summary_toasts_def successCount_def errorCount_def plural_def show_nat.simps
        digit_char_def)
  from rep(1) rs st have t: "toasts (client_state ?final)
       = [\<lparr>title = ''Upload complete'', description = ''1 file uploaded successfully.'',
           destructive = False\<rparr>,
          \<lparr>title = ''Some uploads failed'', description = ''1 file failed to upload.'',
           destructive = True\<rparr>]"
    by (simp add: two_files_eq initial_client_def)
  from rep(2) rs have u: "uploadComplete_calls (client_state ?final) = [[?ra, ?rb]]"
    by (simp add: two_files_eq initial_client_def)
  from o rs have o': "outcome ?final = Some (Completed [?ra, ?rb])" by simp
  from pending_two va vb w0 w1 o' cnt t u show ?thesis by blast
qed

text \<open>With nothing pending, \<open>handleUpload\<close> returns at its guard.\<close>

lemma handleUpload_nothing_pending:
  "filter (\<lambda>f. status f = Pending) (files st) = [] \<Longrightarrow>
     handleUpload rx cfg st =
       \<lparr>client_state =
          st\<lparr>toasts := toasts st @
                [\<lparr>title = ''No files to upload'',
                  description = ''Please add files before uploading.'',
                  destructive = True\<rparr>]\<rparr>,
        calls = [], outcome = Some NoPending\<rparr>"
  by (simp add: handleUpload_def)

text \<open>
  C7 says that \<open>handleUpload\<close> ends once every selected task has a terminal result, with
  counts that add up to the number of selected tasks and are surfaced to the caller. Let
  the only accepted type be \<open>*/*\<close>, which does not compile as a regular expression, and
  two files be pending. \<open>validateFile\<close> throws for both, outside the \<open>try\<close> of \<open>uploadFile\<close>;
  \<open>Promise.all\<close> rejects and \<open>handleUpload\<close> ends with that exception. No task has a
  result, no count is computed, no toast is shown, the callback is not called, both
  tasks stay \<open>pending\<close> and \<open>isUploading\<close> stays true, whatever happens afterwards.
\<close>

theorem C7_validation_throws:
  "filter (\<lambda>f. status f = Pending) (files two_files) = [task_a, task_b]
   \<and> simple_engine ''*/*'' ''text/plain''
     = Inl (ErrorObj ''Invalid regular expression: /*/*/: Nothing to repeat'')
   \<and> handleUpload simple_engine
        (default_props\<lparr>acceptedTypes := [''*/*''], onUploadComplete := True\<rparr>) two_files
     = \<lparr>client_state = two_files\<lparr>isUploading := True\<rparr>,
        calls = [Threw (ErrorObj ''Invalid regular expression: /*/*/: Nothing to repeat''),
                 Threw (ErrorObj ''Invalid regular expression: /*/*/: Nothing to repeat'')],
        outcome = Some (Failed (ErrorObj ''Invalid regular expression: /*/*/: Nothing to repeat''))\<rparr>
   \<and> run (default_props\<lparr>acceptedTypes := [''*/*''], onUploadComplete := True\<rparr>)
        [Settle 0 (Responded \<lparr>resp_status = 200, statusText = ''OK''\<rparr>),
         Settle 1 (Responded \<lparr>resp_status = 200, statusText = ''OK''\<rparr>)]
        (handleUpload simple_engine
           (default_props\<lparr>acceptedTypes := [''*/*''], onUploadComplete := True\<rparr>) two_files)
     = handleUpload simple_engine
        (default_props\<lparr>acceptedTypes := [''*/*''], onUploadComplete := True\<rparr>) two_files
   \<and> files (two_files\<lparr>isUploading := True\<rparr>) = [task_a, task_b]
   \<and> isUploading (two_files\<lparr>isUploading := True\<rparr>)
   \<and> toasts (two_files\<lparr>isUploading := True\<rparr>) = []
   \<and> uploadComplete_calls (two_files\<lparr>isUploading := True\<rparr>) = []
   \<and> fetch_calls (two_files\<lparr>isUploading := True\<rparr>) = []"
proof -
  let ?bad = "default_props\<lparr>acceptedTypes := [''*/*''], onUploadComplete := True\<rparr>"
  let ?e = "ErrorObj ''Invalid regular expression: /*/*/: Nothing to repeat''"
  let ?ok = "Responded \<lparr>resp_status = 200, statusText = ''OK''\<rparr>"
  have m: "simple_engine ''*/*'' ''text/plain'' = Inl ?e"
    by (simp add: simple_engine_def)
  have va: "validateFile simple_engine ?bad (task_file task_a) = Inl ?e"
    by (simp add: validateFile_def default_props_def first_is_star_def task_a_def m)
  have vb: "validateFile simple_engine ?bad (task_file task_b) = Inl ?e"
    by (simp add: validateFile_def default_props_def first_is_star_def task_b_def m)
  define S where "S =
      \<lparr>client_state = two_files\<lparr>isUploading := True\<rparr>, calls = [Threw ?e, Threw ?e],
       outcome = Some (Failed ?e)\<rparr>"
  have h1: "handleUpload simple_engine ?bad two_files = S"
    by (simp add: S_def handleUpload_def pending_two Let_def uploadFile_begin_def va vb
        advance_def promise_all_def)
  have s0: "step ?bad (Settle 0 ?ok) S = S"
    by (simp add: step_def S_def)
  have s1: "step ?bad (Settle (Suc 0) ?ok) S = S"
    by (simp add: step_def S_def)
  have r: "run ?bad [Settle 0 ?ok, Settle 1 ?ok] (handleUpload simple_engine ?bad two_files)
      = handleUpload simple_engine ?bad two_files"
    by (simp add: h1 s0 s1)
  have f1: "files (two_files\<lparr>isUploading := True\<rparr>) = [task_a, task_b]"
    by (simp add: two_files_eq)
  have f2: "isUploading (two_files\<lparr>isUploading := True\<rparr>)" by simp
  have f3: "toasts (two_files\<lparr>isUploading := True\<rparr>) = []"
    by (simp add: two_files_eq initial_client_def)
  have f4: "uploadComplete_calls (two_files\<lparr>isUploading := True\<rparr>) = []"
    by (simp add: two_files_eq initial_client_def)
  have f5: "fetch_calls (two_files\<lparr>isUploading := True\<rparr>) = []"
    by (simp add: two_files_eq initial_client_def)
  from h1 have h: "handleUpload simple_engine ?bad two_files =
      \<lparr>client_state = two_files\<lparr>isUploading := True\<rparr>, calls = [Threw ?e, Threw ?e],
       outcome = Some (Failed ?e)\<rparr>"
    by (simp add: S_def)
  from pending_two m h r f1 f2 f3 f4 f5 show ?thesis by blast
qed

end
